theory Spec2Isabelle
  imports Main "HOL-Library.AList"
begin

section \<open>JavaScript values, objects and the store\<close>

text \<open>
  The module \<^verbatim>\<open>src/index.js\<close> works on untyped JavaScript values. Objects have
  identity and are shared by reference (\<^verbatim>\<open>Object.assign\<close> copies references, and
  \<^verbatim>\<open>_init\<close> writes into the caller's \<^verbatim>\<open>hydra\<close> block), so objects live in an
  explicit store and a value only holds the address. An object is an association list:
  the order of the keys is the order \<^verbatim>\<open>Object.keys\<close> lists them in (keys that look
  like array indices, which JavaScript lists first, are left as they were inserted).
  Arrays are only read by this module and are values. Numbers are integers (no NaN, no
  fractions); a function is opaque and has no properties of its own.

  Names follow the source; a leading underscore of the source is a trailing prime here
  (\<^verbatim>\<open>_init\<close> is \<open>init'\<close>, \<^verbatim>\<open>_shutdown\<close> is \<open>shutdown'\<close>).
\<close>

type_synonym addr = nat

datatype val =
    VUndefined
  | VNull
  | VBool bool
  | VNum int
  | VStr string
  | VFun nat
  | VRef addr
  | VArr "val list"

type_synonym obj = "(string \<times> val) list"

type_synonym heap = "obj list"

datatype jserr =
    TypeError string
  | ReferenceError string
  | Error string

text \<open>ToBoolean, as \<^verbatim>\<open>!x\<close>, \<^verbatim>\<open>x || y\<close> and \<^verbatim>\<open>if (x)\<close> apply it.\<close>

fun truthy :: "val \<Rightarrow> bool" where
  "truthy VUndefined = False"
| "truthy VNull = False"
| "truthy (VBool b) = b"
| "truthy (VNum n) = (n \<noteq> 0)"
| "truthy (VStr s) = (s \<noteq> [])"
| "truthy (VFun f) = True"
| "truthy (VRef a) = True"
| "truthy (VArr xs) = True"

text \<open>\<^verbatim>\<open>a || b\<close>\<close>

definition js_or :: "val \<Rightarrow> val \<Rightarrow> val" where
  "js_or a b = (if truthy a then a else b)"

text \<open>Decimal digits of a natural number, for the index keys of a string.\<close>

definition digit_char :: "nat \<Rightarrow> char" where
  "digit_char d = ''0123456789'' ! d"

function dec :: "nat \<Rightarrow> string" where
  "dec n = (if n < 10 then [digit_char n] else dec (n div 10) @ [digit_char (n mod 10)])"
  by pat_completeness auto
termination
  by (relation "measure id") auto

definition dec_int :: "int \<Rightarrow> string" where
  "dec_int i = (if i < 0 then CHR ''-'' # dec (nat (- i)) else dec (nat i))"

text \<open>The own enumerable properties of a string: one per character, keyed by its index.\<close>

definition string_props :: "string \<Rightarrow> obj" where
  "string_props s = map (\<lambda>i. (dec i, VStr [s ! i])) [0..<length s]"

text \<open>A key that is the canonical decimal form of an index.\<close>

definition digit_val :: "char \<Rightarrow> nat option" where
  "digit_val = map_of
     [(CHR ''0'', 0), (CHR ''1'', 1), (CHR ''2'', 2), (CHR ''3'', 3), (CHR ''4'', 4),
      (CHR ''5'', 5), (CHR ''6'', 6), (CHR ''7'', 7), (CHR ''8'', 8), (CHR ''9'', 9)]"

fun parse_digits :: "string \<Rightarrow> nat \<Rightarrow> nat option" where
  "parse_digits [] acc = Some acc"
| "parse_digits (c # cs) acc =
     (case digit_val c of None \<Rightarrow> None | Some d \<Rightarrow> parse_digits cs (10 * acc + d))"

definition parse_index :: "string \<Rightarrow> nat option" where
  "parse_index k =
     (case k of
        [] \<Rightarrow> None
      | c # cs \<Rightarrow> if c = CHR ''0'' \<and> cs \<noteq> [] then None else parse_digits k 0)"

text \<open>The object at an address; an address nothing was allocated at holds no property.\<close>

definition obj_at :: "heap \<Rightarrow> addr \<Rightarrow> obj" where
  "obj_at h a = (if a < length h then h ! a else [])"

definition alloc :: "heap \<Rightarrow> obj \<Rightarrow> addr \<times> heap" where
  "alloc h ob = (length h, h @ [ob])"

definition lookup :: "obj \<Rightarrow> string \<Rightarrow> val" where
  "lookup ob k = (case map_of ob k of None \<Rightarrow> VUndefined | Some v \<Rightarrow> v)"

text \<open>
  \<^verbatim>\<open>v[k]\<close> and \<^verbatim>\<open>v.k\<close>: a TypeError on \<^verbatim>\<open>undefined\<close> and \<^verbatim>\<open>null\<close>, the
  property or \<^verbatim>\<open>undefined\<close> on an object, the character or element at an index key
  on a string or an array, \<^verbatim>\<open>undefined\<close> otherwise (none of the keys this module reads
  is on a prototype, and it never reads \<^verbatim>\<open>length\<close>).
\<close>

fun get_prop :: "heap \<Rightarrow> val \<Rightarrow> string \<Rightarrow> jserr + val" where
  "get_prop h VUndefined k = Inl (TypeError (''Cannot read properties of undefined (reading '' @ k @ '')''))"
| "get_prop h VNull k = Inl (TypeError (''Cannot read properties of null (reading '' @ k @ '')''))"
| "get_prop h (VRef a) k = Inr (lookup (obj_at h a) k)"
| "get_prop h (VStr s) k =
     Inr (case parse_index k of
            None \<Rightarrow> VUndefined
          | Some i \<Rightarrow> if i < length s then VStr [s ! i] else VUndefined)"
| "get_prop h (VArr xs) k =
     Inr (case parse_index k of
            None \<Rightarrow> VUndefined
          | Some i \<Rightarrow> if i < length xs then xs ! i else VUndefined)"
| "get_prop h v k = Inr VUndefined"

text \<open>
  \<^verbatim>\<open>v.k = x\<close> in strict mode (the module starts with \<^verbatim>\<open>'use strict'\<close>): a property
  of an object is replaced in place or appended; on anything else the assignment throws.
\<close>

fun set_prop :: "heap \<Rightarrow> val \<Rightarrow> string \<Rightarrow> val \<Rightarrow> jserr + heap" where
  "set_prop h (VRef a) k x =
     (if a < length h then Inr (h[a := AList.update k x (h ! a)]) else Inr h)"
| "set_prop h v k x = Inl (TypeError (''Cannot set property '' @ k))"

text \<open>\<^verbatim>\<open>Object.keys(v)\<close>\<close>

fun object_keys :: "heap \<Rightarrow> val \<Rightarrow> jserr + string list" where
  "object_keys h VUndefined = Inl (TypeError ''Cannot convert undefined or null to object'')"
| "object_keys h VNull = Inl (TypeError ''Cannot convert undefined or null to object'')"
| "object_keys h (VRef a) = Inr (map fst (obj_at h a))"
| "object_keys h (VStr s) = Inr (map fst (string_props s))"
| "object_keys h (VArr xs) = Inr (map dec [0..<length xs])"
| "object_keys h v = Inr []"

text \<open>
  \<^verbatim>\<open>Object.assign(target, source)\<close> for one source: \<^verbatim>\<open>undefined\<close> and \<^verbatim>\<open>null\<close>
  are skipped, an object gives its properties in order (the values, so references, are
  copied), a string its characters, other primitives nothing.
\<close>

fun own_props :: "heap \<Rightarrow> val \<Rightarrow> obj" where
  "own_props h (VRef a) = obj_at h a"
| "own_props h (VStr s) = string_props s"
| "own_props h v = []"

definition assign_props :: "obj \<Rightarrow> obj \<Rightarrow> obj" where
  "assign_props target src = fold (\<lambda>(k, v) t. AList.update k v t) src target"

text \<open>Sequencing of steps that may throw.\<close>

definition bindE :: "jserr + 'a \<Rightarrow> ('a \<Rightarrow> jserr + 'b) \<Rightarrow> jserr + 'b" where
  "bindE m f = (case m of Inl e \<Rightarrow> Inl e | Inr x \<Rightarrow> f x)"

text \<open>\<^verbatim>\<open>xs.join(sep)\<close> on strings.\<close>

fun join :: "string \<Rightarrow> string list \<Rightarrow> string" where
  "join sep [] = []"
| "join sep [x] = x"
| "join sep (x # y # ys) = x @ sep @ join sep (y # ys)"

section \<open>validateConfig\<close>

text \<open>
  The source's \<^verbatim>\<open>requiredMembers\<close>: a key whose value is a string is required as it
  is, a key whose value is an object is required together with the keys of that object.
\<close>

datatype member = MString | MObject "string list"

definition requiredMembers :: "(string \<times> member) list" where
  "requiredMembers =
     [(''hydra'', MObject [''serviceName'', ''serviceDescription'']),
      (''registerRoutesCallback'', MString)]"

text \<open>The inner \<^verbatim>\<open>forEach\<close> over the keys of an object-valued member.\<close>

fun walk_sub :: "heap \<Rightarrow> val \<Rightarrow> string \<Rightarrow> string list \<Rightarrow> string list \<Rightarrow> jserr + string list" where
  "walk_sub h sub key [] missing = Inr missing"
| "walk_sub h sub key (key2 # ks) missing =
     bindE (get_prop h sub key2) (\<lambda>v.
       walk_sub h sub key ks (if v = VUndefined then missing @ [key @ ''.'' @ key2] else missing))"

text \<open>The outer \<^verbatim>\<open>forEach\<close> over \<^verbatim>\<open>Object.keys(requiredMembers)\<close>.\<close>

fun walk_members :: "heap \<Rightarrow> val \<Rightarrow> (string \<times> member) list \<Rightarrow> string list \<Rightarrow> jserr + string list" where
  "walk_members h config [] missing = Inr missing"
| "walk_members h config ((key, MString) # ms) missing =
     bindE (get_prop h config key) (\<lambda>v.
       walk_members h config ms (if v = VUndefined then missing @ [key] else missing))"
| "walk_members h config ((key, MObject sub) # ms) missing =
     bindE (get_prop h config key) (\<lambda>v.
       if v = VUndefined then walk_members h config ms (missing @ [key])
       else bindE (walk_sub h v key sub missing) (walk_members h config ms))"

definition validateConfig :: "heap \<Rightarrow> val \<Rightarrow> jserr + string list" where
  "validateConfig h config = walk_members h config requiredMembers []"

section \<open>The lifecycle instance, the process and the collaborators\<close>

text \<open>
  A promise or deferred is pending, fulfilled with a value or rejected with an error.
  The collaborators (the discovery client \<^verbatim>\<open>hydra\<close>, the plugins, the user's
  callbacks) are black boxes: what each of their calls does is a parameter of the model.
  A call that returns a promise fulfils, rejects or never settles.
\<close>

datatype pstate = PPending | PFulfilled val | PRejected jserr

datatype 'a outcome = Fulfils 'a | Rejects jserr | Never

text \<open>A plugin method returns a promise or a value, or throws.\<close>

datatype presult = Throws jserr | Returns "unit outcome"

record plugin =
  plugin_id :: nat
  setHydraExpress :: "jserr option"
  setConfig :: presult
  onServiceReady :: presult

text \<open>The middleware \<^verbatim>\<open>initService\<close> and \<^verbatim>\<open>_registerRoutes\<close> put on the shared application.\<close>

datatype middleware =
    Stamp
  | Helmet
  | HidePoweredBy
  | Hsts nat
  | Cors val
  | BodyJson
  | BodyUrlencoded
  | Static val
  | Mount string val
  | Fallback
  | NotFound
  | ErrorHandler

text \<open>Every call into a collaborator, the process or the logger is an event of the trace.\<close>

datatype event =
    HydraOn string
  | HydraInit val bool
  | HydraRegisterService
  | HydraRegisterRoutes "string list"
  | HydraSendToHealthLog string string bool
  | HydraShutdown
  | GetConfigHelper string
  | PluginSetHydraExpress nat
  | PluginSetConfig nat
  | PluginOnServiceReady nat
  | CallFn nat
  | AppUse middleware
  | AppOptions middleware
  | AppSet string val
  | CreateServer nat
  | ServerOn nat string
  | ServerListen nat val
  | ServerClose nat
  | ProcessOn string
  | ProcessEmit string
  | ProcessExit
  | SetTimeout nat
  | Debug string
  | AppLogger string string string
  | AppLoggerFatal string val val
  | ValidateConfig
  | ReadySettled pstate
  | Uncaught jserr

text \<open>
  What a timer runs when it fires: the callback \<^verbatim>\<open>_shutdown\<close> hands to
  \<^verbatim>\<open>setTimeout\<close> (it holds the resolve and reject of one promise), or the watchdog of
  the cleanup handler.
\<close>

datatype task = DrainTask nat | ExitTask

text \<open>
  The fields of the \<^verbatim>\<open>HydraExpress\<close> instance (\<^verbatim>\<open>config\<close> to
  \<^verbatim>\<open>registerMiddlewareCallback\<close>) and the state of the module and the process around it:
  the store, the \<^verbatim>\<open>cleanupDone\<close> flag of each installed \<^verbatim>\<open>'cleanup'\<close> listener, the
  timers that have not fired, the promises \<^verbatim>\<open>_shutdown\<close> returned, the number of
  servers created and of \<^verbatim>\<open>listen\<close> callbacks still to come, whether the process has
  ended, and the trace.
\<close>

record world =
  config :: val
  server :: "nat option"
  testMode :: bool
  registeredPlugins :: "plugin list"
  ready :: pstate
  registerRoutesCallback :: val
  registerMiddlewareCallback :: val
  heap :: heap
  cleanupHandlers :: "bool list"
  timers :: "(nat \<times> task) list"
  promises :: "pstate list"
  servers :: nat
  listening :: nat
  exited :: bool
  trace :: "event list"

text \<open>The constructor, in a process that has done nothing yet.\<close>

definition new_world :: world where
  "new_world = \<lparr> config = VNull, server = None, testMode = False, registeredPlugins = [],
     ready = PPending, registerRoutesCallback = VUndefined,
     registerMiddlewareCallback = VUndefined, heap = [], cleanupHandlers = [], timers = [],
     promises = [], servers = 0, listening = 0, exited = False, trace = [] \<rparr>"

record env =
  hydra_init :: "val \<Rightarrow> bool \<Rightarrow> val outcome"
  hydra_registerService :: "val outcome"
  hydra_shutdown :: "val outcome"
  call_fn :: "nat \<Rightarrow> jserr option"
  config_load :: "string \<Rightarrow> obj option"
  path_join :: "string \<Rightarrow> string \<Rightarrow> string"

definition add_events :: "event list \<Rightarrow> world \<Rightarrow> world" where
  "add_events es w = w\<lparr>trace := trace w @ es\<rparr>"

text \<open>
  \<^verbatim>\<open>log(type, message)\<close> for a string message (the only kind this module logs itself).
\<close>

definition log :: "string \<Rightarrow> string \<Rightarrow> world \<Rightarrow> world" where
  "log type message w =
     add_events
       (Debug (type @ '' '' @ message) #
        (if type = ''fatal'' then
           [AppLogger ''fatal'' type message, HydraSendToHealthLog ''fatal'' message True]
         else if type = ''error'' then
           [AppLogger ''error'' type message, HydraSendToHealthLog ''fatal'' message True]
         else if type = ''debug'' then [AppLogger ''debug'' type message]
         else [AppLogger ''info'' type message])) w"

section \<open>Shutdown\<close>

text \<open>
  \<^verbatim>\<open>_shutdown()\<close> makes a promise and sets the one-second timer; nothing else happens
  until the timer fires. The result is the index of the new promise.
\<close>

definition shutdown' :: "world \<Rightarrow> nat \<times> world" where
  "shutdown' w =
     (let p = length (promises w) in
      (p, add_events [SetTimeout 1000]
            (w\<lparr>promises := promises w @ [PPending], timers := timers w @ [(1000, DrainTask p)]\<rparr>)))"

text \<open>The public \<^verbatim>\<open>shutdown()\<close> of \<^verbatim>\<open>IHydraExpress\<close>.\<close>

definition shutdown :: "world \<Rightarrow> nat \<times> world" where
  "shutdown w = shutdown' w"

definition settle_promise :: "nat \<Rightarrow> pstate \<Rightarrow> world \<Rightarrow> world" where
  "settle_promise p s w =
     (if p < length (promises w) \<and> promises w ! p = PPending
      then w\<lparr>promises := (promises w)[p := s]\<rparr> else w)"

definition outcome_state :: "val outcome \<Rightarrow> pstate" where
  "outcome_state oc = (case oc of Fulfils v \<Rightarrow> PFulfilled v | Rejects e \<Rightarrow> PRejected e | Never \<Rightarrow> PPending)"

text \<open>
  The timer callback of \<^verbatim>\<open>_shutdown\<close>. \<^verbatim>\<open>this.server.close(...)\<close> on a null server
  throws inside the timer, where no promise catches it: the exception is uncaught, the
  process ends, and the promise is left as it was. On a server, \<^verbatim>\<open>close\<close> calls back
  once the listener has closed (taken here to happen at once); the callback logs and
  calls \<^verbatim>\<open>hydra.shutdown()\<close>, whose outcome settles the promise.
\<close>

definition drain :: "env \<Rightarrow> nat \<Rightarrow> world \<Rightarrow> world" where
  "drain ev p w =
     (case server w of
        None \<Rightarrow>
          (add_events [Uncaught (TypeError ''Cannot read properties of null (reading close)'')] w)
            \<lparr>exited := True\<rparr>
      | Some s \<Rightarrow>
          settle_promise p (outcome_state (hydra_shutdown ev))
            (add_events [HydraShutdown]
              (log ''error'' ''Service is shutting down.'' (add_events [ServerClose s] w))))"

definition run_task :: "env \<Rightarrow> task \<Rightarrow> world \<Rightarrow> world" where
  "run_task ev t w =
     (case t of
        DrainTask p \<Rightarrow> drain ev p w
      | ExitTask \<Rightarrow> (add_events [ProcessExit] w)\<lparr>exited := True\<rparr>)"

text \<open>A pending timer fires: it leaves the timer list and its callback runs.\<close>

definition fire :: "env \<Rightarrow> nat \<Rightarrow> world \<Rightarrow> world" where
  "fire ev i w =
     (if exited w \<or> length (timers w) \<le> i then w
      else run_task ev (snd (timers w ! i))
             (w\<lparr>timers := take i (timers w) @ drop (Suc i) (timers w)\<rparr>))"

text \<open>
  The \<^verbatim>\<open>'cleanup'\<close> listener that \<^verbatim>\<open>initService\<close> installs, for the listener whose
  \<^verbatim>\<open>cleanupDone\<close> flag is at index \<open>i\<close>.
\<close>

definition cleanup_handler :: "nat \<Rightarrow> world \<Rightarrow> world" where
  "cleanup_handler i w =
     (if cleanupHandlers w ! i then w
      else
        (let w1 = w\<lparr>cleanupHandlers := (cleanupHandlers w)[i := True]\<rparr>;
             w2 = snd (shutdown' w1)
         in add_events [SetTimeout 30000] (w2\<lparr>timers := timers w2 @ [(30000, ExitTask)]\<rparr>)))"

text \<open>\<^verbatim>\<open>process.emit('cleanup')\<close>: every installed listener runs, in the order installed.\<close>

definition emit_cleanup :: "world \<Rightarrow> world" where
  "emit_cleanup w =
     fold cleanup_handler [0..<length (cleanupHandlers w)] (add_events [ProcessEmit ''cleanup''] w)"

section \<open>initService\<close>

text \<open>\<^verbatim>\<open>f && f()\<close> for a user callback: what a function does is the environment's.\<close>

definition call_val :: "env \<Rightarrow> val \<Rightarrow> world \<Rightarrow> jserr option \<times> world" where
  "call_val ev f w =
     (if \<not> truthy f then (None, w)
      else case f of
             VFun n \<Rightarrow> (call_fn ev n, add_events [CallFn n] w)
           | _ \<Rightarrow> (Some (TypeError ''the callback is not a function''), w))"

text \<open>\<^verbatim>\<open>path.join('./', folder)\<close>, which throws on anything but a string.\<close>

definition app_path :: "env \<Rightarrow> val \<Rightarrow> jserr + val" where
  "app_path ev folder =
     (if truthy folder then
        (case folder of
           VStr s \<Rightarrow> Inr (VStr (path_join ev ''./'' s))
         | _ \<Rightarrow> Inl (TypeError ''The path argument must be of type string''))
      else Inr (VStr (path_join ev ''./'' ''public'')))"

text \<open>
  The second half of \<^verbatim>\<open>initService\<close>, from \<^verbatim>\<open>app.use('/', express.static(...))\<close>
  on: the server is created and told to listen.
\<close>

definition create_server :: "val \<Rightarrow> world \<Rightarrow> jserr option \<times> world" where
  "create_server appPath w =
     (case get_prop (heap w) (config w) ''servicePort'' of
        Inl e \<Rightarrow> (Some e, add_events [AppUse (Static appPath)] w)
      | Inr port \<Rightarrow>
          (let s = servers w;
               w1 = add_events [AppUse (Static appPath), AppSet ''port'' port, CreateServer s,
                      ServerOn s ''error''] (w\<lparr>server := Some s, servers := Suc s\<rparr>)
           in case bindE (get_prop (heap w1) (config w1) ''hydra'')
                     (\<lambda>hy. get_prop (heap w1) hy ''servicePort'') of
                Inl e \<Rightarrow> (Some e, w1)
              | Inr p \<Rightarrow> (None, add_events [ServerListen s p] (w1\<lparr>listening := Suc (listening w1)\<rparr>))))"

text \<open>
  The first part of \<^verbatim>\<open>initService\<close>: the process-id stamp, the \<^verbatim>\<open>'cleanup'\<close>
  listener (installed with its \<^verbatim>\<open>cleanupDone\<close> flag false) and the security headers.
\<close>

definition security_middleware :: "world \<Rightarrow> world" where
  "security_middleware w =
     add_events [AppUse Helmet, AppUse HidePoweredBy, AppUse (Hsts 7776000000)]
       (add_events [ProcessOn ''cleanup'']
          ((add_events [AppUse Stamp] w)\<lparr>cleanupHandlers := cleanupHandlers w @ [False]\<rparr>))"

text \<open>The cross-origin middleware, with the configured options or none.\<close>

definition cors_middleware :: "val \<Rightarrow> world \<Rightarrow> world" where
  "cors_middleware c w =
     (let options = (if truthy c then c else VUndefined)
      in add_events [AppUse (Cors options), AppOptions (Cors options)] w)"

text \<open>
  From the user's middleware callback to \<^verbatim>\<open>listen\<close>: the callback may throw, and so
  may \<^verbatim>\<open>path.join\<close> and the assignment of \<^verbatim>\<open>appPath\<close>.
\<close>

definition serve :: "env \<Rightarrow> world \<Rightarrow> jserr option \<times> world" where
  "serve ev w =
     (case call_val ev (registerMiddlewareCallback w) w of
        (Some e, w1) \<Rightarrow> (Some e, w1)
      | (None, w1) \<Rightarrow>
          (case bindE (get_prop (heap w1) (config w1) ''publicFolder'') (app_path ev) of
             Inl e \<Rightarrow> (Some e, w1)
           | Inr ap \<Rightarrow>
               (case set_prop (heap w1) (config w1) ''appPath'' ap of
                  Inl e \<Rightarrow> (Some e, w1)
                | Inr h \<Rightarrow> create_server ap (w1\<lparr>heap := h\<rparr>))))"

text \<open>
  \<^verbatim>\<open>initService()\<close>: the result is the error it throws, if any. Reading
  \<^verbatim>\<open>this.config.cors\<close> and \<^verbatim>\<open>this.config.bodyParser\<close> throws when the config is
  \<^verbatim>\<open>undefined\<close> or \<^verbatim>\<open>null\<close>.
\<close>

definition initService :: "env \<Rightarrow> world \<Rightarrow> jserr option \<times> world" where
  "initService ev w =
     (let w1 = security_middleware w
      in case get_prop (heap w1) (config w1) ''cors'' of
           Inl e \<Rightarrow> (Some e, w1)
         | Inr c \<Rightarrow>
             (let w2 = cors_middleware c w1
              in case get_prop (heap w2) (config w2) ''bodyParser'' of
                   Inl e \<Rightarrow> (Some e, w2)
                 | Inr b \<Rightarrow> serve ev (add_events [AppUse BodyJson, AppUse BodyUrlencoded] w2)))"

text \<open>
  The callback of \<^verbatim>\<open>server.listen\<close>, run when the listener is bound. An exception of
  the user's route callback is uncaught there.
\<close>

definition listen_callback :: "env \<Rightarrow> world \<Rightarrow> world" where
  "listen_callback ev w =
     (if exited w \<or> listening w = 0 then w
      else case call_val ev (registerRoutesCallback w) (w\<lparr>listening := listening w - 1\<rparr>) of
             (Some e, w1) \<Rightarrow> (add_events [Uncaught e] w1)\<lparr>exited := True\<rparr>
           | (None, w1) \<Rightarrow> add_events [AppUse Fallback, AppUse NotFound, AppUse ErrorHandler] w1)"

section \<open>start\<close>

text \<open>
  The \<^verbatim>\<open>forEach\<close> that calls one method of every registered plugin and pushes what
  it returns: a plugin that throws ends the loop.
\<close>

fun call_plugins ::
  "(plugin \<Rightarrow> presult) \<Rightarrow> (nat \<Rightarrow> event) \<Rightarrow> plugin list \<Rightarrow> world \<Rightarrow> (jserr + unit outcome list) \<times> world" where
  "call_plugins f mk [] w = (Inr [], w)"
| "call_plugins f mk (p # ps) w =
     (let w1 = add_events [mk (plugin_id p)] w
      in case f p of
           Throws e \<Rightarrow> (Inl e, w1)
         | Returns oc \<Rightarrow>
             (case call_plugins f mk ps w1 of
                (Inl e, w2) \<Rightarrow> (Inl e, w2)
              | (Inr ocs, w2) \<Rightarrow> (Inr (oc # ocs), w2)))"

text \<open>
  \<^verbatim>\<open>Q.all\<close>: rejected as soon as one promise is (the earliest in the list stands for
  the earliest in time), pending while one is pending, fulfilled otherwise.
\<close>

fun Q_all :: "unit outcome list \<Rightarrow> unit outcome" where
  "Q_all [] = Fulfils ()"
| "Q_all (Rejects e # ocs) = Rejects e"
| "Q_all (Fulfils u # ocs) = Q_all ocs"
| "Q_all (Never # ocs) = (case Q_all ocs of Rejects e \<Rightarrow> Rejects e | _ \<Rightarrow> Never)"

text \<open>
  A link of the promise chain has a value for the next \<^verbatim>\<open>then\<close>, has failed (every
  later \<^verbatim>\<open>then\<close> is skipped, the \<^verbatim>\<open>catch\<close> runs), or is waiting for a promise that
  never settles.
\<close>

datatype 'a chain = Ok 'a | Fail jserr | Hang

definition of_outcome :: "'a outcome \<Rightarrow> 'a chain" where
  "of_outcome oc = (case oc of Fulfils x \<Rightarrow> Ok x | Rejects e \<Rightarrow> Fail e | Never \<Rightarrow> Hang)"

definition then_chain :: "'a chain \<times> world \<Rightarrow> ('a \<Rightarrow> world \<Rightarrow> 'b chain \<times> world) \<Rightarrow> 'b chain \<times> world" where
  "then_chain m f =
     (case m of (Ok x, w) \<Rightarrow> f x w | (Fail e, w) \<Rightarrow> (Fail e, w) | (Hang, w) \<Rightarrow> (Hang, w))"

definition await_plugins :: "(jserr + unit outcome list) \<times> world \<Rightarrow> unit chain \<times> world" where
  "await_plugins r = (case r of (Inl e, w) \<Rightarrow> (Fail e, w) | (Inr ocs, w) \<Rightarrow> (of_outcome (Q_all ocs), w))"

text \<open>\<^verbatim>\<open>hydra.init(this.config, this.testMode)\<close>\<close>

definition phase_init :: "env \<Rightarrow> world \<Rightarrow> val chain \<times> world" where
  "phase_init ev w =
     (of_outcome (hydra_init ev (config w) (testMode w)),
      add_events [HydraInit (config w) (testMode w)] w)"

text \<open>The first \<^verbatim>\<open>then\<close>: the resolved config is kept and given to every plugin.\<close>

definition phase_setConfig :: "val \<Rightarrow> world \<Rightarrow> unit chain \<times> world" where
  "phase_setConfig cfg w =
     await_plugins (call_plugins setConfig PluginSetConfig (registeredPlugins w) (w\<lparr>config := cfg\<rparr>))"

text \<open>The second \<^verbatim>\<open>then\<close>: \<^verbatim>\<open>hydra.registerService()\<close>\<close>

definition phase_register :: "env \<Rightarrow> world \<Rightarrow> val chain \<times> world" where
  "phase_register ev w = (of_outcome (hydra_registerService ev), add_events [HydraRegisterService] w)"

text \<open>The third \<^verbatim>\<open>then\<close>: \<^verbatim>\<open>initService\<close>, then every plugin's \<^verbatim>\<open>onServiceReady\<close>.\<close>

definition phase_service :: "env \<Rightarrow> world \<Rightarrow> unit chain \<times> world" where
  "phase_service ev w =
     (case initService ev w of
        (Some e, w1) \<Rightarrow> (Fail e, w1)
      | (None, w1) \<Rightarrow>
          await_plugins (call_plugins onServiceReady PluginOnServiceReady (registeredPlugins w1) w1))"

definition start_chain :: "env \<Rightarrow> world \<Rightarrow> val chain \<times> world" where
  "start_chain ev w =
     then_chain (phase_init ev w) (\<lambda>cfg w1.
       then_chain (phase_setConfig cfg w1) (\<lambda>u w2.
         then_chain (phase_register ev w2) (\<lambda>serviceInfo w3.
           then_chain (phase_service ev w3) (\<lambda>u w4. (Ok serviceInfo, w4)))))"

text \<open>
  \<^verbatim>\<open>this.ready.resolve(...)\<close> and \<^verbatim>\<open>this.ready.reject(...)\<close>: a deferred that is no
  longer pending ignores the call; a transition is an event.
\<close>

definition settle_ready :: "pstate \<Rightarrow> world \<Rightarrow> world" where
  "settle_ready s w =
     (if ready w = PPending then add_events [ReadySettled s] (w\<lparr>ready := s\<rparr>) else w)"

text \<open>
  \<^verbatim>\<open>start(resolve, reject)\<close>. The result is the state of the promise that
  \<^verbatim>\<open>resolve\<close> and \<^verbatim>\<open>reject\<close> belong to. The last \<^verbatim>\<open>then\<close> calls
  \<^verbatim>\<open>resolve(serviceInfo)\<close> and \<^verbatim>\<open>this.ready.resolve()\<close>, with no argument; the
  \<^verbatim>\<open>catch\<close> calls \<^verbatim>\<open>this.ready.reject(err)\<close>, \<^verbatim>\<open>process.emit('cleanup')\<close> and
  \<^verbatim>\<open>reject(err)\<close>.
\<close>

definition start :: "env \<Rightarrow> world \<Rightarrow> pstate \<times> world" where
  "start ev w =
     (case start_chain ev w of
        (Ok serviceInfo, w1) \<Rightarrow> (PFulfilled serviceInfo, settle_ready (PFulfilled VUndefined) w1)
      | (Fail err, w1) \<Rightarrow> (PRejected err, emit_cleanup (settle_ready (PRejected err) w1))
      | (Hang, w1) \<Rightarrow> (PPending, w1))"

section \<open>init\<close>

text \<open>\<^verbatim>\<open>v.k = v.k || d\<close>\<close>

definition default_prop :: "heap \<Rightarrow> val \<Rightarrow> string \<Rightarrow> val \<Rightarrow> jserr + heap" where
  "default_prop h v k d = bindE (get_prop h v k) (\<lambda>x. set_prop h v k (js_or x d))"

text \<open>The three defaults \<^verbatim>\<open>_init\<close> writes into the \<^verbatim>\<open>hydra\<close> block.\<close>

definition hydra_defaults :: "heap \<Rightarrow> val \<Rightarrow> jserr + heap" where
  "hydra_defaults h hy =
     bindE (default_prop h hy ''serviceIP'' (VStr [])) (\<lambda>h1.
       bindE (default_prop h1 hy ''servicePort'' (VNum 0)) (\<lambda>h2.
         default_prop h2 hy ''serviceType'' (VStr [])))"

text \<open>
  The last branch of \<^verbatim>\<open>_init\<close>: the config is captured, the log listener is put on
  the discovery client and \<^verbatim>\<open>start\<close> runs. An exception inside the promise's executor
  rejects the promise.
\<close>

definition accept_config :: "env \<Rightarrow> val \<Rightarrow> world \<Rightarrow> pstate \<times> world" where
  "accept_config ev cfg w =
     (case bindE (get_prop (heap w) cfg ''hydra'') (\<lambda>hy.
             bindE (get_prop (heap w) cfg ''version'') (\<lambda>v.
               set_prop (heap w) hy ''serviceVersion'' v)) of
        Inl e \<Rightarrow> (PRejected e, w)
      | Inr h1 \<Rightarrow>
          (let w1 = w\<lparr>heap := h1, config := cfg\<rparr>
           in case default_prop h1 cfg ''environment'' (VStr ''development'') of
                Inl e \<Rightarrow> (PRejected e, w1)
              | Inr h2 \<Rightarrow>
                  (case bindE (get_prop h2 cfg ''registerRoutesCallback'') (\<lambda>rrc.
                          bindE (get_prop h2 cfg ''registerMiddlewareCallback'') (\<lambda>rmc. Inr (rrc, rmc))) of
                     Inl e \<Rightarrow> (PRejected e, w1\<lparr>heap := h2\<rparr>)
                   | Inr (rrc, rmc) \<Rightarrow>
                       start ev (add_events [HydraOn ''log'']
                         (w1\<lparr>heap := h2, registerRoutesCallback := rrc,
                              registerMiddlewareCallback := rmc\<rparr>)))))"

text \<open>
  \<^verbatim>\<open>_init(config)\<close>: the state of the promise it returns, and the world after. The
  call of \<^verbatim>\<open>validateConfig\<close> is marked in the trace.
\<close>

definition init' :: "env \<Rightarrow> val \<Rightarrow> world \<Rightarrow> pstate \<times> world" where
  "init' ev cfg w =
     (case get_prop (heap w) cfg ''hydra'' of
        Inl e \<Rightarrow> (PRejected e, w)
      | Inr hy \<Rightarrow>
         (if \<not> truthy hy then (PRejected (Error ''Config missing hydra block''), w)
          else
           (case get_prop (heap w) hy ''redis'' of
              Inl e \<Rightarrow> (PRejected e, w)
            | Inr rd \<Rightarrow>
               (if \<not> truthy rd then (PRejected (Error ''Config missing redis block''), w)
                else
                 (case hydra_defaults (heap w) hy of
                    Inl e \<Rightarrow> (PRejected e, w)
                  | Inr h1 \<Rightarrow>
                     (let w1 = add_events [ValidateConfig] (w\<lparr>heap := h1\<rparr>)
                      in (case validateConfig h1 cfg of
                            Inl e \<Rightarrow> (PRejected e, w1)
                          | Inr missingFields \<Rightarrow>
                             (if missingFields \<noteq> [] then
                                (PRejected (Error (''Config missing fields: '' @ join '' '' missingFields)), w1)
                              else
                               (case get_prop h1 cfg ''registerRoutesCallback'' of
                                  Inl e \<Rightarrow> (PRejected e, w1)
                                | Inr rrc \<Rightarrow>
                                   (if \<not> truthy rrc then
                                      (PRejected (Error ''Config missing registerRoutesCallback parameter''), w1)
                                    else accept_config ev cfg w1))))))))))"

text \<open>
  The overload resolution of \<^verbatim>\<open>init\<close>: the callbacks after it, and the \<^verbatim>\<open>inner\<close>
  object.
\<close>

definition init_inner :: "val \<Rightarrow> val \<Rightarrow> val \<Rightarrow> obj" where
  "init_inner version rrc rmc =
     (let (rrc1, rmc1, inner0) =
            (case version of
               VFun f \<Rightarrow> (version, rrc, [])
             | _ \<Rightarrow> (rrc, rmc, if truthy version then [(''version'', version)] else []));
          inner1 = (if truthy rrc1 then AList.update ''registerRoutesCallback'' rrc1 inner0 else inner0)
      in if truthy rmc1 then AList.update ''registerMiddlewareCallback'' rmc1 inner1 else inner1)"

text \<open>\<^verbatim>\<open>Object.assign({}, config, inner)\<close>, the object \<^verbatim>\<open>_init\<close> is given.\<close>

definition merged_config :: "heap \<Rightarrow> val \<Rightarrow> val \<Rightarrow> val \<Rightarrow> val \<Rightarrow> obj" where
  "merged_config h cfg version rrc rmc =
     assign_props (assign_props [] (own_props h cfg)) (init_inner version rrc rmc)"

text \<open>
  \<^verbatim>\<open>init(config, version, registerRoutesCallback, registerMiddlewareCallback)\<close> for a
  config that is not a string. \<^verbatim>\<open>Inl\<close> is an exception thrown by \<^verbatim>\<open>init\<close> itself
  (reading \<^verbatim>\<open>testMode\<close> off \<^verbatim>\<open>undefined\<close> or \<^verbatim>\<open>null\<close>). The test-mode flag is set
  before \<^verbatim>\<open>_init\<close> looks at the config.
\<close>

definition init_object :: "env \<Rightarrow> val \<Rightarrow> val \<Rightarrow> val \<Rightarrow> val \<Rightarrow> world \<Rightarrow> (jserr + pstate) \<times> world" where
  "init_object ev cfg version rrc rmc w =
     (case get_prop (heap w) cfg ''testMode'' of
        Inl e \<Rightarrow> (Inl e, w)
      | Inr tm \<Rightarrow>
          (let w1 = (if tm = VBool True then w\<lparr>testMode := True\<rparr> else w);
               (a, h1) = alloc (heap w1) (merged_config (heap w1) cfg version rrc rmc);
               (r, w2) = init' ev (VRef a) (w1\<lparr>heap := h1\<rparr>)
           in (Inr r, w2)))"

text \<open>
  \<^verbatim>\<open>init\<close> with a string first loads the config through the discovery client's
  config helper (\<^verbatim>\<open>config_load\<close>: the object it holds after loading, or nothing when
  loading fails) and calls itself with the loaded object; every failure of that call is
  replaced by one error.
\<close>

definition init :: "env \<Rightarrow> val \<Rightarrow> val \<Rightarrow> val \<Rightarrow> val \<Rightarrow> world \<Rightarrow> (jserr + pstate) \<times> world" where
  "init ev cfg version rrc rmc w =
     (case cfg of
        VStr file \<Rightarrow>
          (let w0 = add_events [GetConfigHelper file] w;
               failed = PRejected (Error (''Unable to load config from '' @ file))
           in case config_load ev file of
                None \<Rightarrow> (Inr failed, w0)
              | Some ob \<Rightarrow>
                  (let (a, h1) = alloc (heap w0) ob
                   in case init_object ev (VRef a) version rrc rmc (w0\<lparr>heap := h1\<rparr>) of
                        (Inr PPending, w1) \<Rightarrow> (Inr PPending, w1)
                      | (Inr (PFulfilled v), w1) \<Rightarrow> (Inr (PFulfilled v), w1)
                      | (Inr (PRejected e), w1) \<Rightarrow> (Inr failed, w1)
                      | (Inl e, w1) \<Rightarrow> (Inr failed, w1)))
      | _ \<Rightarrow> init_object ev cfg version rrc rmc w)"

section \<open>getRuntimeConfig\<close>

text \<open>\<^verbatim>\<open>Object.assign({}, this.config)\<close>: a new object with the properties of the live one.\<close>

definition getRuntimeConfig :: "world \<Rightarrow> val \<times> world" where
  "getRuntimeConfig w =
     (let (a, h1) = alloc (heap w) (assign_props [] (own_props (heap w) (config w)))
      in (VRef a, w\<lparr>heap := h1\<rparr>))"

text \<open>What a caller can do with a value it holds: assign a property through it.\<close>

definition caller_assigns :: "val \<Rightarrow> string \<Rightarrow> val \<Rightarrow> world \<Rightarrow> world" where
  "caller_assigns target k x w =
     (case set_prop (heap w) target k x of Inl e \<Rightarrow> w | Inr h \<Rightarrow> w\<lparr>heap := h\<rparr>)"

section \<open>registerRoutes\<close>

text \<open>
  The conversion a template literal applies to a value. The source text of a function is
  not modelled.
\<close>

fun to_string :: "val \<Rightarrow> string" where
  "to_string VUndefined = ''undefined''"
| "to_string VNull = ''null''"
| "to_string (VBool b) = (if b then ''true'' else ''false'')"
| "to_string (VNum n) = dec_int n"
| "to_string (VStr s) = s"
| "to_string (VFun f) = ''function''"
| "to_string (VRef a) = ''[object Object]''"
| "to_string (VArr xs) = join '','' (map to_string xs)"

text \<open>The \<^verbatim>\<open>forEach\<close> over \<^verbatim>\<open>Object.keys(routeInfo.methods)\<close>.\<close>

fun walk_methods :: "heap \<Rightarrow> string \<Rightarrow> val \<Rightarrow> string list \<Rightarrow> string list \<Rightarrow> jserr + string list" where
  "walk_methods h routePath routeInfo [] routesList = Inr routesList"
| "walk_methods h routePath routeInfo (m # ms) routesList =
     bindE (get_prop h routeInfo ''path'') (\<lambda>p.
       walk_methods h routePath routeInfo ms
         (routesList @ [''['' @ m @ '']'' @ routePath @ to_string p]))"

text \<open>The \<^verbatim>\<open>forEach\<close> over the router's \<^verbatim>\<open>stack\<close>.\<close>

fun walk_stack :: "heap \<Rightarrow> string \<Rightarrow> val list \<Rightarrow> string list \<Rightarrow> jserr + string list" where
  "walk_stack h routePath [] routesList = Inr routesList"
| "walk_stack h routePath (layer # ls) routesList =
     bindE (get_prop h layer ''route'') (\<lambda>routeInfo.
       if truthy routeInfo then
         bindE (get_prop h routeInfo ''methods'') (\<lambda>ms.
           bindE (object_keys h ms) (\<lambda>ks.
             bindE (walk_methods h routePath routeInfo ks routesList) (walk_stack h routePath ls)))
       else walk_stack h routePath ls routesList)"

text \<open>\<^verbatim>\<open>routes[routePath].stack.forEach(...)\<close>: only an array has \<^verbatim>\<open>forEach\<close>.\<close>

definition walk_router :: "heap \<Rightarrow> string \<Rightarrow> val \<Rightarrow> string list \<Rightarrow> jserr + string list" where
  "walk_router h routePath router routesList =
     bindE (get_prop h router ''stack'') (\<lambda>st.
       case st of
         VArr layers \<Rightarrow> walk_stack h routePath layers routesList
       | VUndefined \<Rightarrow> Inl (TypeError ''Cannot read properties of undefined (reading forEach)'')
       | VNull \<Rightarrow> Inl (TypeError ''Cannot read properties of null (reading forEach)'')
       | _ \<Rightarrow> Inl (TypeError ''forEach is not a function''))"

text \<open>The \<^verbatim>\<open>forEach\<close> over \<^verbatim>\<open>Object.keys(routes)\<close>; each router is mounted after its walk.\<close>

fun walk_routes :: "val \<Rightarrow> string list \<Rightarrow> string list \<Rightarrow> world \<Rightarrow> (jserr + string list) \<times> world" where
  "walk_routes routes [] routesList w = (Inr routesList, w)"
| "walk_routes routes (routePath # rs) routesList w =
     (case get_prop (heap w) routes routePath of
        Inl e \<Rightarrow> (Inl e, w)
      | Inr router \<Rightarrow>
          (case walk_router (heap w) routePath router routesList of
             Inl e \<Rightarrow> (Inl e, w)
           | Inr routesList' \<Rightarrow>
               walk_routes routes rs routesList' (add_events [AppUse (Mount routePath router)] w)))"

text \<open>\<^verbatim>\<open>_registerRoutes(routes)\<close>: the result is the exception it throws, if any.\<close>

definition registerRoutes' :: "val \<Rightarrow> world \<Rightarrow> jserr option \<times> world" where
  "registerRoutes' routes w =
     (case object_keys (heap w) routes of
        Inl e \<Rightarrow> (Some e, w)
      | Inr ks \<Rightarrow>
          (case walk_routes routes ks [] w of
             (Inl e, w1) \<Rightarrow> (Some e, w1)
           | (Inr routesList, w1) \<Rightarrow> (None, add_events [HydraRegisterRoutes routesList] w1)))"

text \<open>
  The public \<^verbatim>\<open>registerRoutes(routeBaseUrl, api)\<close> passes both arguments on;
  \<^verbatim>\<open>_registerRoutes\<close> has one parameter, so \<^verbatim>\<open>api\<close> is dropped.
\<close>

definition registerRoutes :: "val \<Rightarrow> val \<Rightarrow> world \<Rightarrow> jserr option \<times> world" where
  "registerRoutes routeBaseUrl api w = registerRoutes' routeBaseUrl w"

section \<open>Plugins\<close>

text \<open>
  The names bound in the module: its top-level \<^verbatim>\<open>const\<close>, \<^verbatim>\<open>let\<close> and class
  declarations, then what Node's module wrapper and its global object give every module.
  An identifier that is in neither throws a ReferenceError where it is evaluated.
\<close>

definition module_scope :: "string list" where
  "module_scope =
     [''debug'', ''Q'', ''hydra'', ''Utils'', ''ServerResponse'', ''serverResponse'',
      ''bodyParser'', ''cors'', ''express'', ''helmet'', ''http'', ''path'', ''app'',
      ''defaultLogger'', ''HydraExpress'', ''IHydraExpress'']"

definition node_scope :: "string list" where
  "node_scope =
     [''require'', ''module'', ''exports'', ''__filename'', ''__dirname'', ''global'',
      ''globalThis'', ''process'', ''console'', ''setTimeout'', ''setInterval'',
      ''setImmediate'', ''clearTimeout'', ''Object'', ''Promise'', ''Error'', ''Array'',
      ''String'', ''Number'', ''Boolean'', ''JSON'', ''Math'', ''Buffer'']"

definition in_scope :: "string \<Rightarrow> bool" where
  "in_scope name = (name \<in> set (module_scope @ node_scope))"

text \<open>
  \<^verbatim>\<open>_registerPlugin(plugin)\<close>: the plugin is pushed, then bound to the instance; the
  result is the exception \<^verbatim>\<open>setHydraExpress\<close> throws, if any.
\<close>

definition registerPlugin' :: "plugin \<Rightarrow> world \<Rightarrow> jserr option \<times> world" where
  "registerPlugin' p w =
     (setHydraExpress p,
      add_events [PluginSetHydraExpress (plugin_id p)]
        (w\<lparr>registeredPlugins := registeredPlugins w @ [p]\<rparr>))"

text \<open>What \<^verbatim>\<open>_.each(plugins, ...)\<close> would do were \<^verbatim>\<open>_\<close> bound to an each-helper.\<close>

fun register_each :: "plugin list \<Rightarrow> world \<Rightarrow> jserr option \<times> world" where
  "register_each [] w = (None, w)"
| "register_each (p # ps) w =
     (case registerPlugin' p w of
        (Some e, w1) \<Rightarrow> (Some e, w1)
      | (None, w1) \<Rightarrow> register_each ps w1)"

text \<open>
  \<^verbatim>\<open>use(...plugins)\<close>: the identifier \<^verbatim>\<open>_\<close> is evaluated before anything is
  registered. \<^verbatim>\<open>Inl\<close> is the exception thrown, \<^verbatim>\<open>Inr\<close> the promise returned.
\<close>

definition use :: "plugin list \<Rightarrow> world \<Rightarrow> (jserr + unit outcome) \<times> world" where
  "use plugins w =
     (if in_scope ''_'' then
        (case register_each plugins w of
           (Some e, w1) \<Rightarrow> (Inl e, w1)
         | (None, w1) \<Rightarrow> (Inr (Fulfils ()), w1))
      else (Inl (ReferenceError ''_ is not defined''), w))"

fun use_all :: "plugin list list \<Rightarrow> world \<Rightarrow> world" where
  "use_all [] w = w"
| "use_all (ps # pss) w = use_all pss (snd (use ps w))"

section \<open>The terminal error handler\<close>

text \<open>
  Modelled from the spec: the two status constants of the discovery client's
  \<^verbatim>\<open>ServerResponse\<close> helper, which is not part of this repository. The spec gives the
  not-found code as 404 and the internal-server-error code as 500.
\<close>

definition HTTP_NOT_FOUND :: val where
  "HTTP_NOT_FOUND = VNum 404"

definition HTTP_SERVER_ERROR :: val where
  "HTTP_SERVER_ERROR = VNum 500"

text \<open>The three fields the handler reads off the error, and the response it sends.\<close>

record request_error =
  status :: val
  name :: val
  stack :: val

record response =
  response_status :: val
  response_json :: obj

text \<open>
  The last middleware of the \<^verbatim>\<open>listen\<close> callback:
  \<^verbatim>\<open>res.status(errCode).json({code: errCode})\<close>, after the fatal log entry for every
  status but not-found (\<^verbatim>\<open>!==\<close>, so without conversion).
\<close>

definition error_handler :: "request_error \<Rightarrow> event list \<times> response" where
  "error_handler err =
     (let errCode = js_or (status err) HTTP_SERVER_ERROR
      in (if status err \<noteq> HTTP_NOT_FOUND then [AppLoggerFatal ''error'' (name err) (stack err)] else [],
          \<lparr> response_status = errCode, response_json = [(''code'', errCode)] \<rparr>))"

definition is_number :: "val \<Rightarrow> bool" where
  "is_number v = (case v of VNum n \<Rightarrow> True | _ \<Rightarrow> False)"

section \<open>What happens to a running process\<close>

text \<open>
  The termination signal is raised, a pending timer fires, a listener is bound, or the
  host calls the public \<^verbatim>\<open>shutdown()\<close>. Nothing runs in a process that has ended.
\<close>

datatype action = Signal | Fire nat | Listening | Shutdown

definition step :: "env \<Rightarrow> action \<Rightarrow> world \<Rightarrow> world" where
  "step ev a w =
     (if exited w then w
      else case a of
             Signal \<Rightarrow> emit_cleanup w
           | Fire i \<Rightarrow> fire ev i w
           | Listening \<Rightarrow> listen_callback ev w
           | Shutdown \<Rightarrow> snd (shutdown w))"

definition run :: "env \<Rightarrow> action list \<Rightarrow> world \<Rightarrow> world" where
  "run ev as w = fold (step ev) as w"

text \<open>How often an event is in a trace.\<close>

definition occurrences :: "event \<Rightarrow> event list \<Rightarrow> nat" where
  "occurrences e es = length (filter (\<lambda>x. x = e) es)"

section \<open>The required fields, in the spec's words\<close>

text \<open>
  The spec's schema: \<^verbatim>\<open>serviceDescriptor.serviceName\<close>,
  \<^verbatim>\<open>serviceDescriptor.serviceDescription\<close> and \<^verbatim>\<open>routeRegistrationCallback\<close>, under
  the names the code gives them. A field is absent when reading it along its path gives
  \<^verbatim>\<open>undefined\<close>; the missing fields are the absent ones, as dotted paths, in schema
  order.
\<close>

definition required_fields :: "string list list" where
  "required_fields =
     [[''hydra'', ''serviceName''], [''hydra'', ''serviceDescription''], [''registerRoutesCallback'']]"

fun read_path :: "heap \<Rightarrow> val \<Rightarrow> string list \<Rightarrow> jserr + val" where
  "read_path h v [] = Inr v"
| "read_path h v (k # ks) = bindE (get_prop h v k) (\<lambda>x. read_path h x ks)"

definition absent :: "heap \<Rightarrow> val \<Rightarrow> string list \<Rightarrow> bool" where
  "absent h cfg fld = (read_path h cfg fld = Inr VUndefined)"

definition spec_missing_fields :: "heap \<Rightarrow> val \<Rightarrow> string list" where
  "spec_missing_fields h cfg = map (join ''.'') (filter (absent h cfg) required_fields)"

section \<open>A sample service\<close>

text \<open>
  Collaborators that all succeed: the discovery client resolves with the config it was
  given and registers the service under a fixed descriptor, every user callback returns,
  and \<^verbatim>\<open>path.join('./', p)\<close> is \<open>p\<close>.
\<close>

definition sample_env :: env where
  "sample_env = \<lparr> hydra_init = (\<lambda>cfg t. Fulfils cfg),
     hydra_registerService = Fulfils (VStr ''svc@10.0.0.1:3000''),
     hydra_shutdown = Fulfils VUndefined,
     call_fn = (\<lambda>n. None),
     config_load = (\<lambda>f. None),
     path_join = (\<lambda>a b. b) \<rparr>"

text \<open>
  A complete config at address 0:
  \<^verbatim>\<open>{hydra: {serviceName: 'svc', serviceDescription: 'd', redis: {url: ...}}}\<close>.
\<close>

definition sample_heap :: heap where
  "sample_heap =
     [[(''hydra'', VRef 1)],
      [(''serviceName'', VStr ''svc''), (''serviceDescription'', VStr ''d''), (''redis'', VRef 2)],
      [(''url'', VStr ''redis://localhost'')]]"

definition sample_world :: world where
  "sample_world = new_world\<lparr>heap := sample_heap\<rparr>"

text \<open>The same config without a service description.\<close>

definition incomplete_heap :: heap where
  "incomplete_heap =
     [[(''hydra'', VRef 1)],
      [(''serviceName'', VStr ''svc''), (''redis'', VRef 2)],
      [(''url'', VStr ''redis://localhost'')]]"

text \<open>A config with no \<^verbatim>\<open>hydra\<close> block that asks for test mode: \<^verbatim>\<open>{testMode: true}\<close>.\<close>

definition testmode_heap :: heap where
  "testmode_heap = [[(''testMode'', VBool True)]]"

text \<open>A plugin whose three methods all succeed.\<close>

definition sample_plugin :: plugin where
  "sample_plugin = \<lparr> plugin_id = 7, setHydraExpress = None, setConfig = Returns (Fulfils ()),
     onServiceReady = Returns (Fulfils ()) \<rparr>"

text \<open>The world after the public \<^verbatim>\<open>init\<close> has started the sample service.\<close>

definition started_world :: world where
  "started_world = snd (init sample_env (VRef 0) VUndefined (VFun 1) VUndefined sample_world)"

section \<open>Notions the properties use\<close>

text \<open>
  A caller that holds a value assigns properties through it, one after the other.
\<close>

definition caller_assigns_all :: "val \<Rightarrow> (string \<times> val) list \<Rightarrow> world \<Rightarrow> world" where
  "caller_assigns_all target kxs w = fold (\<lambda>(k, x). caller_assigns target k x) kxs w"

text \<open>There is no server, and the promise at index \<open>p\<close> is pending.\<close>

definition pending_forever :: "nat \<Rightarrow> world \<Rightarrow> bool" where
  "pending_forever p w = (server w = None \<and> p < length (promises w) \<and> promises w ! p = PPending)"

text \<open>The transitions of the ready signal that a trace records, in order.\<close>

definition ready_transitions :: "event list \<Rightarrow> pstate list" where
  "ready_transitions es = concat (map (\<lambda>e. case e of ReadySettled s \<Rightarrow> [s] | _ \<Rightarrow> []) es)"

text \<open>Between two worlds the ready signal did not move.\<close>

definition same_ready :: "world \<Rightarrow> world \<Rightarrow> bool" where
  "same_ready w w' =
     (ready w' = ready w \<and> ready_transitions (trace w') = ready_transitions (trace w))"

text \<open>
  The links of the promise chain before \<^verbatim>\<open>initService\<close>: the discovery client is
  initialised, the plugins get the config, the service is registered.
\<close>

definition registration :: "env \<Rightarrow> world \<Rightarrow> val chain \<times> world" where
  "registration ev w =
     then_chain (phase_init ev w) (\<lambda>cfg w1.
       then_chain (phase_setConfig cfg w1) (\<lambda>u w2. phase_register ev w2))"

text \<open>
  Collaborators like the sample ones, except that registering the service fails, or that
  a plugin's ready notification fails.
\<close>

definition unregistered_env :: env where
  "unregistered_env = sample_env\<lparr>hydra_registerService := Rejects (Error ''registry unreachable'')\<rparr>"

definition failing_plugin :: plugin where
  "failing_plugin = \<lparr> plugin_id = 9, setHydraExpress = None, setConfig = Returns (Fulfils ()),
     onServiceReady = Returns (Rejects (Error ''plugin not ready'')) \<rparr>"

text \<open>
  The world \<^verbatim>\<open>_init\<close> sees when \<^verbatim>\<open>init\<close> is called on the sample config with a route
  callback: the store holds the merged copy at address 3.
\<close>

definition merged_world :: world where
  "merged_world = sample_world\<lparr>heap :=
     sample_heap @ [[(''hydra'', VRef 1), (''registerRoutesCallback'', VFun 1)]]\<rparr>"

text \<open>
  The sample instance as \<^verbatim>\<open>start\<close> finds it, with the config at address 0 captured;
  and the same with one registered plugin whose ready notification fails.
\<close>

definition captured_world :: world where
  "captured_world = sample_world\<lparr>config := VRef 0\<rparr>"

definition plugged_world :: world where
  "plugged_world = captured_world\<lparr>registeredPlugins := [failing_plugin]\<rparr>"

text \<open>Between two worlds nothing of the process changed: listeners, timers, promises, server.\<close>

definition same_process :: "world \<Rightarrow> world \<Rightarrow> bool" where
  "same_process w w' =
     (cleanupHandlers w' = cleanupHandlers w \<and> timers w' = timers w \<and> promises w' = promises w \<and>
      server w' = server w \<and> servers w' = servers w \<and> exited w' = exited w)"

section \<open>The advertised route list, as a specification\<close>

text \<open>
  What the spec's derivation sees of a route table: per base path the mounted router and
  its stack, each stack entry either without a concrete route or with the route's method
  names and leaf path. The flat list has one line per method of every entry with a
  route, in stack order: the method name as the route spells it, in brackets, then base
  path and leaf path concatenated.
\<close>

type_synonym route_view = "string list \<times> string"

type_synonym router_view = "route_view option list"

type_synonym table_view = "(string \<times> val \<times> router_view) list"

definition route_line :: "string \<Rightarrow> string \<Rightarrow> string \<Rightarrow> string" where
  "route_line m base leaf = ''['' @ m @ '']'' @ base @ leaf"

definition entry_lines :: "string \<Rightarrow> route_view option \<Rightarrow> string list" where
  "entry_lines base entry =
     (case entry of None \<Rightarrow> [] | Some (ms, leaf) \<Rightarrow> map (\<lambda>m. route_line m base leaf) ms)"

definition spec_route_list :: "table_view \<Rightarrow> string list" where
  "spec_route_list table =
     concat (map (\<lambda>(base, router, st). concat (map (entry_lines base) st)) table)"

text \<open>
  Reading that view off the store. A table is an object from base paths to routers, a
  router an object whose \<^verbatim>\<open>stack\<close> is an array of layers, a layer an object whose
  \<^verbatim>\<open>route\<close> is falsy or an object with a \<^verbatim>\<open>methods\<close> object and a string
  \<^verbatim>\<open>path\<close>. Anything else has no view.
\<close>

definition view_layer :: "heap \<Rightarrow> val \<Rightarrow> route_view option option" where
  "view_layer h layer =
     (case get_prop h layer ''route'' of
        Inl e \<Rightarrow> None
      | Inr routeInfo \<Rightarrow>
          if \<not> truthy routeInfo then Some None
          else (case (get_prop h routeInfo ''methods'', get_prop h routeInfo ''path'') of
                  (Inr (VRef ma), Inr (VStr leaf)) \<Rightarrow> Some (Some (map fst (obj_at h ma), leaf))
                | _ \<Rightarrow> None))"

definition view_router :: "heap \<Rightarrow> val \<Rightarrow> router_view option" where
  "view_router h router =
     (case get_prop h router ''stack'' of
        Inr (VArr layers) \<Rightarrow> those (map (view_layer h) layers)
      | _ \<Rightarrow> None)"

definition view_mount :: "heap \<Rightarrow> val \<Rightarrow> string \<Rightarrow> (string \<times> val \<times> router_view) option" where
  "view_mount h routes base =
     (case get_prop h routes base of
        Inl e \<Rightarrow> None
      | Inr router \<Rightarrow> map_option (\<lambda>st. (base, router, st)) (view_router h router))"

definition view_routes :: "heap \<Rightarrow> val \<Rightarrow> table_view option" where
  "view_routes h routes =
     (case routes of
        VRef a \<Rightarrow> those (map (view_mount h routes) (map fst (obj_at h a)))
      | _ \<Rightarrow> None)"

text \<open>
  A route table \<^verbatim>\<open>{'/v1': router}\<close> at address 0; the router's stack has a middleware
  layer and a layer for \<^verbatim>\<open>/list\<close> with the methods \<^verbatim>\<open>get\<close> and \<^verbatim>\<open>post\<close>, under
  the names the routing library gives them.
\<close>

definition routes_heap :: heap where
  "routes_heap =
     [[(''/v1'', VRef 1)],
      [(''stack'', VArr [VRef 2, VRef 3])],
      [(''name'', VStr ''jsonParser'')],
      [(''route'', VRef 4)],
      [(''path'', VStr ''/list''), (''methods'', VRef 5)],
      [(''get'', VBool True), (''post'', VBool True)]]"

definition routes_world :: world where
  "routes_world = new_world\<lparr>heap := routes_heap\<rparr>"

section \<open>Properties\<close>

subsection \<open>Reading and writing properties\<close>

lemma lookup_update_other: "k \<noteq> k' \<Longrightarrow> lookup (AList.update k x ob) k' = lookup ob k'"
  by (simp add: lookup_def update_conv')

lemma get_prop_set_prop_other:
  "set_prop h v k x = Inr h' \<Longrightarrow> k \<noteq> k' \<Longrightarrow> get_prop h' u k' = get_prop h u k'"
  by (cases v; cases u) (auto simp: obj_at_def lookup_update_other nth_list_update split: if_splits)

lemma get_prop_default_prop_other:
  "default_prop h v k d = Inr h' \<Longrightarrow> k \<noteq> k' \<Longrightarrow> get_prop h' u k' = get_prop h u k'"
  by (auto simp: default_prop_def bindE_def get_prop_set_prop_other split: sum.splits)

lemma get_prop_defined:
  "get_prop h v k = Inr x \<Longrightarrow> \<exists>y. get_prop h v k' = Inr y"
  by (cases v) auto

lemma get_prop_truthy_defined:
  "truthy v \<Longrightarrow> \<exists>y. get_prop h v k = Inr y"
  by (cases v) auto

lemma validateConfig_spec:
  assumes "get_prop h cfg ''hydra'' = Inr hy" and "truthy hy"
  shows "validateConfig h cfg = Inr (spec_missing_fields h cfg)"
proof -
  obtain r where r: "get_prop h cfg ''registerRoutesCallback'' = Inr r"
    using get_prop_defined [OF assms(1)] by blast
  obtain n where n: "get_prop h hy ''serviceName'' = Inr n"
    using get_prop_truthy_defined [OF assms(2)] by blast
  obtain d where d: "get_prop h hy ''serviceDescription'' = Inr d"
    using get_prop_truthy_defined [OF assms(2)] by blast
  from assms(2) have u: "hy \<noteq> VUndefined" by auto
  show ?thesis
    using assms(1) r n d u
    by (simp add: validateConfig_def requiredMembers_def spec_missing_fields_def required_fields_def
        absent_def bindE_def)
qed

lemma redis_ref:
  "get_prop h hy ''redis'' = Inr rd \<Longrightarrow> truthy rd \<Longrightarrow> \<exists>a. hy = VRef a \<and> a < length h"
  by (cases hy) (auto simp: parse_index_def digit_val_def obj_at_def lookup_def split: if_splits)

lemma bindE_Inr: "bindE m f = Inr y \<longleftrightarrow> (\<exists>x. m = Inr x \<and> f x = Inr y)"
  by (cases m) (simp_all add: bindE_def)

lemma default_prop_ref:
  "a < length h \<Longrightarrow> \<exists>h'. default_prop h (VRef a) k d = Inr h' \<and> length h' = length h"
  by (simp add: default_prop_def bindE_def)

lemma hydra_defaults_ref:
  assumes "a < length h"
  shows "\<exists>h'. hydra_defaults h (VRef a) = Inr h' \<and> length h' = length h"
proof -
  obtain h1 where 1: "default_prop h (VRef a) ''serviceIP'' (VStr []) = Inr h1" "length h1 = length h"
    using default_prop_ref [OF assms] by blast
  then have "a < length h1" using assms by simp
  then obtain h2 where 2: "default_prop h1 (VRef a) ''servicePort'' (VNum 0) = Inr h2" "length h2 = length h1"
    using default_prop_ref by blast
  then have "a < length h2" using \<open>a < length h1\<close> by simp
  then obtain h3 where 3: "default_prop h2 (VRef a) ''serviceType'' (VStr []) = Inr h3" "length h3 = length h2"
    using default_prop_ref by blast
  show ?thesis using 1 2 3 by (simp add: hydra_defaults_def bindE_def)
qed

lemma get_prop_hydra_defaults_other:
  assumes "hydra_defaults h hy = Inr h'"
    and "k \<noteq> ''serviceIP''" and "k \<noteq> ''servicePort''" and "k \<noteq> ''serviceType''"
  shows "get_prop h' u k = get_prop h u k"
proof -
  from assms(1) obtain h1 h2 where
    1: "default_prop h hy ''serviceIP'' (VStr []) = Inr h1" and
    2: "default_prop h1 hy ''servicePort'' (VNum 0) = Inr h2" and
    3: "default_prop h2 hy ''serviceType'' (VStr []) = Inr h'"
    by (auto simp: hydra_defaults_def bindE_Inr)
  have "get_prop h' u k = get_prop h2 u k"
    by (rule get_prop_default_prop_other [OF 3]) (use assms(4) in simp)
  also have "\<dots> = get_prop h1 u k"
    by (rule get_prop_default_prop_other [OF 2]) (use assms(3) in simp)
  also have "\<dots> = get_prop h u k"
    by (rule get_prop_default_prop_other [OF 1]) (use assms(2) in simp)
  finally show ?thesis .
qed

lemma spec_missing_fields_hydra_defaults:
  assumes "hydra_defaults h hy = Inr h'"
  shows "spec_missing_fields h' cfg = spec_missing_fields h cfg"
proof -
  have g: "\<And>u k. k \<noteq> ''serviceIP'' \<Longrightarrow> k \<noteq> ''servicePort'' \<Longrightarrow> k \<noteq> ''serviceType''
             \<Longrightarrow> get_prop h' u k = get_prop h u k"
    using get_prop_hydra_defaults_other [OF assms] by blast
  show ?thesis
    by (simp add: spec_missing_fields_def required_fields_def absent_def g bindE_def)
qed

lemma init'_missing_fields:
  assumes hy: "get_prop (heap w) cfg ''hydra'' = Inr hy" "truthy hy"
    and rd: "get_prop (heap w) hy ''redis'' = Inr rd" "truthy rd"
    and ms: "spec_missing_fields (heap w) cfg \<noteq> []"
  shows "\<exists>h1. hydra_defaults (heap w) hy = Inr h1 \<and>
           init' ev cfg w =
             (PRejected (Error (''Config missing fields: '' @ join '' '' (spec_missing_fields (heap w) cfg))),
              add_events [ValidateConfig] (w\<lparr>heap := h1\<rparr>))"
proof -
  obtain a where a: "hy = VRef a" "a < length (heap w)"
    using redis_ref [OF rd] by blast
  obtain h1 where h1: "hydra_defaults (heap w) hy = Inr h1"
    using hydra_defaults_ref [OF a(2)] a(1) by blast
  have hy1: "get_prop h1 cfg ''hydra'' = Inr hy"
    using get_prop_hydra_defaults_other [OF h1, of "''hydra''" cfg] hy(1) by simp
  have v: "validateConfig h1 cfg = Inr (spec_missing_fields (heap w) cfg)"
    using validateConfig_spec [OF hy1 hy(2)] spec_missing_fields_hydra_defaults [OF h1] by simp
  show ?thesis
    using hy rd h1 v ms by (simp add: init'_def Let_def)
qed

lemma init_on_object:
  "init ev (VRef c) version rrc rmc w =
     (Inr (fst (init' ev (VRef (length (heap w)))
             (w\<lparr>testMode := (testMode w \<or> lookup (obj_at (heap w) c) ''testMode'' = VBool True),
                heap := heap w @ [merged_config (heap w) (VRef c) version rrc rmc]\<rparr>))),
      snd (init' ev (VRef (length (heap w)))
             (w\<lparr>testMode := (testMode w \<or> lookup (obj_at (heap w) c) ''testMode'' = VBool True),
                heap := heap w @ [merged_config (heap w) (VRef c) version rrc rmc]\<rparr>)))"
  by (cases "lookup (obj_at (heap w) c) ''testMode'' = VBool True")
     (simp_all add: init_def init_object_def alloc_def Let_def split_beta)

lemma read_redis:
  assumes "read_path h cfg [''hydra'', ''redis''] = Inr rd"
  shows "\<exists>hy. get_prop h cfg ''hydra'' = Inr hy \<and> get_prop h hy ''redis'' = Inr rd"
  using assms by (auto simp: bindE_Inr)

lemma init'_rejects_missing:
  assumes "read_path (heap w) cfg [''hydra'', ''redis''] = Inr rd" and "truthy rd"
    and "spec_missing_fields (heap w) cfg \<noteq> []"
  shows "fst (init' ev cfg w) =
              PRejected (Error (''Config missing fields: '' @ join '' '' (spec_missing_fields (heap w) cfg))) \<and>
            trace (snd (init' ev cfg w)) = trace w @ [ValidateConfig]"
proof -
  obtain hy where hy: "get_prop (heap w) cfg ''hydra'' = Inr hy"
    and rd: "get_prop (heap w) hy ''redis'' = Inr rd"
    using read_redis [OF assms(1)] by blast
  have t: "truthy hy" using redis_ref [OF rd assms(2)] by auto
  show ?thesis
    using init'_missing_fields [OF hy t rd assms(2) assms(3), of ev] by (auto simp: add_events_def)
qed

subsection \<open>C2: the missing fields and the aggregated rejection\<close>

text \<open>
  C2. For every store and config whose \<^verbatim>\<open>hydra\<close> block holds a truthy \<^verbatim>\<open>redis\<close>
  block, \<^verbatim>\<open>validateConfig\<close> returns exactly the dotted paths of the required fields
  that read as \<^verbatim>\<open>undefined\<close>, in schema order (so the empty list when none is absent).
  When that list is not empty, \<^verbatim>\<open>_init\<close> on this config rejects with the one message
  \<^verbatim>\<open>Config missing fields: \<close> followed by the paths joined with a space, and the only
  thing the trace gains is the mark of the \<^verbatim>\<open>validateConfig\<close> call: no call into
  the discovery client. The same holds for the public \<^verbatim>\<open>init\<close> on a config object
  \<open>c\<close>, which hands \<^verbatim>\<open>_init\<close> the fresh copy
  \<^verbatim>\<open>Object.assign({}, config, inner)\<close>: here \<open>cfg\<close> is that copy and \<open>h\<close> the store
  holding it.
\<close>

theorem missing_fields_reported:
  assumes "read_path h cfg [''hydra'', ''redis''] = Inr rd" and "truthy rd"
  shows "validateConfig h cfg = Inr (spec_missing_fields h cfg) \<and>
         (spec_missing_fields h cfg \<noteq> [] \<longrightarrow>
            (\<forall>w. heap w = h \<longrightarrow>
               fst (init' ev cfg w) =
                 PRejected (Error (''Config missing fields: '' @ join '' '' (spec_missing_fields h cfg))) \<and>
               trace (snd (init' ev cfg w)) = trace w @ [ValidateConfig]) \<and>
            (\<forall>w c version rrc rmc.
               cfg = VRef (length (heap w)) \<and>
               h = heap w @ [merged_config (heap w) (VRef c) version rrc rmc] \<longrightarrow>
               fst (init ev (VRef c) version rrc rmc w) =
                 Inr (PRejected (Error (''Config missing fields: '' @ join '' '' (spec_missing_fields h cfg)))) \<and>
               trace (snd (init ev (VRef c) version rrc rmc w)) = trace w @ [ValidateConfig]))"
proof -
  obtain hy where hy: "get_prop h cfg ''hydra'' = Inr hy"
    and rd: "get_prop h hy ''redis'' = Inr rd"
    using read_redis [OF assms(1)] by blast
  have t: "truthy hy" using redis_ref [OF rd assms(2)] by auto
  have v: "validateConfig h cfg = Inr (spec_missing_fields h cfg)"
    by (rule validateConfig_spec [OF hy t])
  have r: "fst (init' ev cfg w) =
              PRejected (Error (''Config missing fields: '' @ join '' '' (spec_missing_fields h cfg))) \<and>
            trace (snd (init' ev cfg w)) = trace w @ [ValidateConfig]"
    if "spec_missing_fields h cfg \<noteq> []" and "heap w = h" for w
    using init'_rejects_missing [of w cfg rd ev] that assms by simp
  have p: "fst (init ev (VRef c) version rrc rmc w) =
                 Inr (PRejected (Error (''Config missing fields: '' @ join '' '' (spec_missing_fields h cfg)))) \<and>
               trace (snd (init ev (VRef c) version rrc rmc w)) = trace w @ [ValidateConfig]"
    if m: "spec_missing_fields h cfg \<noteq> []" and c: "cfg = VRef (length (heap w))"
      and h: "h = heap w @ [merged_config (heap w) (VRef c) version rrc rmc]"
    for w c version rrc rmc
  proof -
    let ?w1 = "w\<lparr>testMode := (testMode w \<or> lookup (obj_at (heap w) c) ''testMode'' = VBool True),
                heap := heap w @ [merged_config (heap w) (VRef c) version rrc rmc]\<rparr>"
    have "heap ?w1 = h" using h by simp
    from r [OF m this] show ?thesis
      by (simp add: init_on_object [of ev c version rrc rmc w] c)
  qed
  show ?thesis using v r p by blast
qed

theorem missing_fields_reported_witness:
  "validateConfig (incomplete_heap @ [[(''hydra'', VRef 1)]]) (VRef 3)
     = Inr [''hydra.serviceDescription'', ''registerRoutesCallback''] \<and>
   fst (init' sample_env (VRef 3) (new_world\<lparr>heap := incomplete_heap @ [[(''hydra'', VRef 1)]]\<rparr>))
     = PRejected (Error ''Config missing fields: hydra.serviceDescription registerRoutesCallback'') \<and>
   fst (init sample_env (VRef 0) VUndefined VUndefined VUndefined (new_world\<lparr>heap := incomplete_heap\<rparr>))
     = Inr (PRejected (Error ''Config missing fields: hydra.serviceDescription registerRoutesCallback'')) \<and>
   trace (snd (init sample_env (VRef 0) VUndefined VUndefined VUndefined (new_world\<lparr>heap := incomplete_heap\<rparr>)))
     = [ValidateConfig]"
proof -
  let ?h = "incomplete_heap @ [[(''hydra'', VRef 1)]]"
  have p: "read_path ?h (VRef 3) [''hydra'', ''redis''] = Inr (VRef 2)"
    by (simp add: incomplete_heap_def bindE_def lookup_def obj_at_def)
  have t: "truthy (VRef 2)" by simp
  have m: "spec_missing_fields ?h (VRef 3) = [''hydra.serviceDescription'', ''registerRoutesCallback'']"
    by (simp add: incomplete_heap_def spec_missing_fields_def required_fields_def absent_def
        bindE_def lookup_def obj_at_def)
  have c: "merged_config incomplete_heap (VRef 0) VUndefined VUndefined VUndefined = [(''hydra'', VRef 1)]"
    by (simp add: merged_config_def init_inner_def assign_props_def incomplete_heap_def obj_at_def)
  have l: "length incomplete_heap = 3" by (simp add: incomplete_heap_def)
  note inst = missing_fields_reported [OF p t, of sample_env, unfolded m]
  have 1: "validateConfig ?h (VRef 3) = Inr [''hydra.serviceDescription'', ''registerRoutesCallback'']"
    using inst by simp
  have 2: "fst (init' sample_env (VRef 3) (new_world\<lparr>heap := ?h\<rparr>))
     = PRejected (Error ''Config missing fields: hydra.serviceDescription registerRoutesCallback'')"
    using inst by simp
  have 3: "fst (init sample_env (VRef 0) VUndefined VUndefined VUndefined (new_world\<lparr>heap := incomplete_heap\<rparr>))
       = Inr (PRejected (Error ''Config missing fields: hydra.serviceDescription registerRoutesCallback'')) \<and>
     trace (snd (init sample_env (VRef 0) VUndefined VUndefined VUndefined (new_world\<lparr>heap := incomplete_heap\<rparr>)))
       = [ValidateConfig]"
    using inst c l by (simp add: new_world_def)
  show ?thesis using 1 2 3 by simp
qed

subsection \<open>C3: a config without the connection block\<close>

text \<open>
  C3, as stated, fails: the claim has the rejection come before any side effect, but the
  public \<^verbatim>\<open>init\<close> sets the instance's test-mode flag from \<^verbatim>\<open>config.testMode\<close>
  before \<^verbatim>\<open>_init\<close> looks for the \<^verbatim>\<open>hydra\<close> block. For the config
  \<^verbatim>\<open>{testMode: true}\<close> the promise is rejected for the missing block and the flag,
  false before, is true after.
\<close>

theorem testmode_set_before_rejection:
  "fst (init sample_env (VRef 0) VUndefined VUndefined VUndefined (new_world\<lparr>heap := testmode_heap\<rparr>))
     = Inr (PRejected (Error ''Config missing hydra block'')) \<and>
   testMode (new_world\<lparr>heap := testmode_heap\<rparr>) = False \<and>
   testMode (snd (init sample_env (VRef 0) VUndefined VUndefined VUndefined
                    (new_world\<lparr>heap := testmode_heap\<rparr>))) = True"
  by (simp add: init_def init_object_def init'_def alloc_def merged_config_def init_inner_def
      assign_props_def testmode_heap_def new_world_def obj_at_def lookup_def)


text \<open>
  C3, amended. For every config object whose copy (the object \<^verbatim>\<open>init\<close> hands to
  \<^verbatim>\<open>_init\<close>) has a falsy \<^verbatim>\<open>hydra\<close> block, or a \<^verbatim>\<open>hydra\<close> block with a falsy
  \<^verbatim>\<open>redis\<close> block, \<^verbatim>\<open>init\<close> rejects with \<^verbatim>\<open>Config missing hydra block\<close> or
  \<^verbatim>\<open>Config missing redis block\<close>. Both differ from the two messages of the field
  check. The trace is as it was, so \<^verbatim>\<open>validateConfig\<close> has not run and no collaborator
  was called; the world differs only in the test-mode flag, set when
  \<^verbatim>\<open>config.testMode === true\<close>, and in the store, which holds the fresh copy.
\<close>

theorem no_connection_block_rejected:
  assumes "h1 = heap w @ [merged_config (heap w) (VRef c) version rrc rmc]"
    and "get_prop h1 (VRef (length (heap w))) ''hydra'' = Inr hy"
    and "\<not> truthy hy \<or> (\<exists>rd. get_prop h1 hy ''redis'' = Inr rd \<and> \<not> truthy rd)"
    and "msg = (if truthy hy then ''Config missing redis block'' else ''Config missing hydra block'')"
  shows "init ev (VRef c) version rrc rmc w =
           (Inr (PRejected (Error msg)),
            w\<lparr>testMode := (testMode w \<or> lookup (obj_at (heap w) c) ''testMode'' = VBool True),
              heap := h1\<rparr>) \<and>
         trace (snd (init ev (VRef c) version rrc rmc w)) = trace w \<and>
         msg \<noteq> ''Config missing registerRoutesCallback parameter'' \<and>
         (\<forall>fields. msg \<noteq> ''Config missing fields: '' @ fields)"
proof -
  let ?w1 = "w\<lparr>testMode := (testMode w \<or> lookup (obj_at (heap w) c) ''testMode'' = VBool True),
                heap := h1\<rparr>"
  have "init' ev (VRef (length (heap w))) ?w1 = (PRejected (Error msg), ?w1)"
    using assms(2,3,4) by (auto simp: init'_def)
  then have "init ev (VRef c) version rrc rmc w = (Inr (PRejected (Error msg)), ?w1)"
    using assms(1) by (simp add: init_on_object [of ev c version rrc rmc w])
  moreover have "msg \<noteq> ''Config missing registerRoutesCallback parameter''"
    using assms(4) by simp
  moreover have "\<forall>fields. msg \<noteq> ''Config missing fields: '' @ fields"
    using assms(4) by simp
  ultimately show ?thesis by simp
qed

theorem no_connection_block_rejected_witness:
  "init sample_env (VRef 0) VUndefined VUndefined VUndefined (new_world\<lparr>heap := testmode_heap\<rparr>) =
     (Inr (PRejected (Error ''Config missing hydra block'')),
      new_world\<lparr>testMode := True, heap := testmode_heap @ [[(''testMode'', VBool True)]]\<rparr>)"
proof -
  let ?w = "new_world\<lparr>heap := testmode_heap\<rparr>"
  have c: "merged_config testmode_heap (VRef 0) VUndefined VUndefined VUndefined = [(''testMode'', VBool True)]"
    by (simp add: merged_config_def init_inner_def assign_props_def testmode_heap_def obj_at_def)
  have 1: "testmode_heap @ [[(''testMode'', VBool True)]]
             = heap ?w @ [merged_config (heap ?w) (VRef 0) VUndefined VUndefined VUndefined]"
    by (simp add: c)
  have 2: "get_prop (testmode_heap @ [[(''testMode'', VBool True)]]) (VRef (length (heap ?w))) ''hydra''
             = Inr VUndefined"
    by (simp add: testmode_heap_def obj_at_def lookup_def)
  have 3: "\<not> truthy VUndefined \<or>
           (\<exists>rd. get_prop (testmode_heap @ [[(''testMode'', VBool True)]]) VUndefined ''redis'' = Inr rd \<and> \<not> truthy rd)"
    by simp
  show ?thesis
    using no_connection_block_rejected [OF 1 2 3 refl, of sample_env]
    by (simp add: testmode_heap_def obj_at_def lookup_def)
qed

subsection \<open>C9: use\<close>

lemma use_all_id: "use_all pss w = w"
  by (induction pss arbitrary: w)
     (simp_all add: use_def in_scope_def module_scope_def node_scope_def)

text \<open>
  C9. Every call of \<^verbatim>\<open>use\<close>, whatever the plugins, throws the ReferenceError for
  \<^verbatim>\<open>_\<close> and leaves the world as it was: no plugin is appended to
  \<^verbatim>\<open>registeredPlugins\<close>, no \<^verbatim>\<open>setHydraExpress\<close> is called. So after any number of
  calls of \<^verbatim>\<open>use\<close> the world, and with it the list of registered plugins, is unchanged.
\<close>

theorem use_throws_reference_error:
  "use plugins w = (Inl (ReferenceError ''_ is not defined''), w) \<and>
   registeredPlugins (snd (use plugins w)) = registeredPlugins w \<and>
   trace (snd (use plugins w)) = trace w \<and>
   use_all calls w = w"
  by (simp add: use_def in_scope_def module_scope_def node_scope_def use_all_id)

theorem use_throws_reference_error_witness:
  "use [sample_plugin] new_world = (Inl (ReferenceError ''_ is not defined''), new_world) \<and>
   registeredPlugins (use_all [[sample_plugin], [sample_plugin, sample_plugin]] new_world) = []"
proof -
  have r: "registeredPlugins new_world = []" by (simp add: new_world_def)
  show ?thesis
    using use_throws_reference_error
      [of "[sample_plugin]" new_world "[[sample_plugin], [sample_plugin, sample_plugin]]"] r
    by (simp del: use_all.simps)
qed

subsection \<open>C7: the terminal error handler\<close>



subsection \<open>Helper facts about the world\<close>

lemma add_events_fields [simp]:
  "server (add_events es w) = server w"
  "promises (add_events es w) = promises w"
  "timers (add_events es w) = timers w"
  "cleanupHandlers (add_events es w) = cleanupHandlers w"
  "exited (add_events es w) = exited w"
  "ready (add_events es w) = ready w"
  "heap (add_events es w) = heap w"
  "config (add_events es w) = config w"
  "servers (add_events es w) = servers w"
  "listening (add_events es w) = listening w"
  "testMode (add_events es w) = testMode w"
  "registeredPlugins (add_events es w) = registeredPlugins w"
  "registerRoutesCallback (add_events es w) = registerRoutesCallback w"
  "registerMiddlewareCallback (add_events es w) = registerMiddlewareCallback w"
  "trace (add_events es w) = trace w @ es"
  by (simp_all add: add_events_def)

lemmas model_defs =
  init_def init_object_def init'_def alloc_def merged_config_def init_inner_def assign_props_def
  accept_config_def hydra_defaults_def default_prop_def bindE_def js_or_def validateConfig_def
  requiredMembers_def start_def start_chain_def then_chain_def phase_init_def phase_setConfig_def
  phase_register_def phase_service_def await_plugins_def of_outcome_def initService_def
  security_middleware_def cors_middleware_def serve_def
  create_server_def app_path_def call_val_def settle_ready_def emit_cleanup_def cleanup_handler_def
  shutdown'_def add_events_def lookup_def obj_at_def Let_def

lemma started_world_eq:
  "init sample_env (VRef 0) VUndefined (VFun 1) VUndefined sample_world =
    (Inr (PFulfilled (VStr ''svc@10.0.0.1:3000'')),
     \<lparr>config = VRef 3, server = Some 0, testMode = False,
     registeredPlugins = [], ready = PFulfilled VUndefined,
     registerRoutesCallback = VFun 1,
     registerMiddlewareCallback = VUndefined,
     heap =
       [[(''hydra'', VRef 1)],
        [(''serviceName'', VStr ''svc''),
         (''serviceDescription'', VStr ''d''), (''redis'', VRef 2),
         (''serviceIP'', VStr []), (''servicePort'', VNum 0),
         (''serviceType'', VStr []), (''serviceVersion'', VUndefined)],
        [(''url'', VStr ''redis://localhost'')],
        [(''hydra'', VRef 1), (''registerRoutesCallback'', VFun 1),
         (''environment'', VStr ''development''),
         (''appPath'', VStr ''public'')]],
     cleanupHandlers = [False], timers = [], promises = [], servers = 1,
     listening = 1, exited = False,
     trace =
       [ValidateConfig, HydraOn ''log'', HydraInit (VRef 3) False,
        HydraRegisterService, AppUse Stamp, ProcessOn ''cleanup'',
        AppUse Helmet, AppUse HidePoweredBy, AppUse (Hsts 7776000000),
        AppUse (Cors VUndefined), AppOptions (Cors VUndefined),
        AppUse BodyJson, AppUse BodyUrlencoded,
        AppUse (Static (VStr ''public'')), AppSet ''port'' VUndefined,
        CreateServer 0, ServerOn 0 ''error'', ServerListen 0 (VNum 0),
        ReadySettled (PFulfilled VUndefined)]\<rparr>)"
  by (simp add: model_defs sample_env_def sample_world_def sample_heap_def new_world_def)



subsection \<open>C10: shutdown without a server\<close>

lemma pending_shutdown': "pending_forever p w \<Longrightarrow> pending_forever p (snd (shutdown' w))"
  by (simp add: pending_forever_def shutdown'_def Let_def nth_append)

lemma pending_cleanup_handler: "pending_forever p w \<Longrightarrow> pending_forever p (cleanup_handler i w)"
  by (simp add: pending_forever_def cleanup_handler_def shutdown'_def Let_def nth_append)

lemma pending_fold_cleanup:
  "pending_forever p w \<Longrightarrow> pending_forever p (fold cleanup_handler is w)"
  by (induction "is" arbitrary: w) (simp_all add: pending_cleanup_handler)

lemma pending_emit_cleanup: "pending_forever p w \<Longrightarrow> pending_forever p (emit_cleanup w)"
  unfolding emit_cleanup_def
  by (rule pending_fold_cleanup) (simp add: pending_forever_def)

lemma pending_fire: "pending_forever p w \<Longrightarrow> pending_forever p (fire ev i w)"
  by (cases "snd (timers w ! i)")
     (simp_all add: pending_forever_def fire_def run_task_def drain_def)

lemma pending_listen: "pending_forever p w \<Longrightarrow> pending_forever p (listen_callback ev w)"
  by (cases "registerRoutesCallback w"; cases "call_fn ev (case registerRoutesCallback w of VFun n \<Rightarrow> n | _ \<Rightarrow> 0)")
     (simp_all add: pending_forever_def listen_callback_def call_val_def)

lemma pending_step: "pending_forever p w \<Longrightarrow> pending_forever p (step ev a w)"
  by (cases a)
     (simp_all add: step_def shutdown_def pending_emit_cleanup pending_fire pending_listen pending_shutdown')

lemma pending_run: "pending_forever p w \<Longrightarrow> pending_forever p (run ev as w)"
  unfolding run_def by (induction as arbitrary: w) (simp_all add: pending_step)



subsection \<open>C6: two termination signals\<close>

lemma emit_cleanup_armed:
  assumes "cleanupHandlers w = [False]"
  shows "emit_cleanup w =
           w\<lparr>cleanupHandlers := [True],
             promises := promises w @ [PPending],
             timers := timers w @ [(1000, DrainTask (length (promises w))), (30000, ExitTask)],
             trace := trace w @ [ProcessEmit ''cleanup'', SetTimeout 1000, SetTimeout 30000]\<rparr>"
  using assms
  by (simp add: emit_cleanup_def cleanup_handler_def shutdown'_def add_events_def Let_def)

lemma emit_cleanup_done:
  assumes "cleanupHandlers w = [True]"
  shows "emit_cleanup w = w\<lparr>trace := trace w @ [ProcessEmit ''cleanup'']\<rparr>"
  using assms
  by (simp add: emit_cleanup_def cleanup_handler_def add_events_def)

lemma started_world_is:
  "started_world =
     \<lparr>config = VRef 3, server = Some 0, testMode = False,
     registeredPlugins = [], ready = PFulfilled VUndefined,
     registerRoutesCallback = VFun 1,
     registerMiddlewareCallback = VUndefined,
     heap =
       [[(''hydra'', VRef 1)],
        [(''serviceName'', VStr ''svc''),
         (''serviceDescription'', VStr ''d''), (''redis'', VRef 2),
         (''serviceIP'', VStr []), (''servicePort'', VNum 0),
         (''serviceType'', VStr []), (''serviceVersion'', VUndefined)],
        [(''url'', VStr ''redis://localhost'')],
        [(''hydra'', VRef 1), (''registerRoutesCallback'', VFun 1),
         (''environment'', VStr ''development''),
         (''appPath'', VStr ''public'')]],
     cleanupHandlers = [False], timers = [], promises = [], servers = 1,
     listening = 1, exited = False,
     trace =
       [ValidateConfig, HydraOn ''log'', HydraInit (VRef 3) False,
        HydraRegisterService, AppUse Stamp, ProcessOn ''cleanup'',
        AppUse Helmet, AppUse HidePoweredBy, AppUse (Hsts 7776000000),
        AppUse (Cors VUndefined), AppOptions (Cors VUndefined),
        AppUse BodyJson, AppUse BodyUrlencoded,
        AppUse (Static (VStr ''public'')), AppSet ''port'' VUndefined,
        CreateServer 0, ServerOn 0 ''error'', ServerListen 0 (VNum 0),
        ReadySettled (PFulfilled VUndefined)]\<rparr>"
  by (simp only: started_world_def started_world_eq snd_conv)

text \<open>
  C6. Take a world with one installed \<^verbatim>\<open>'cleanup'\<close> listener whose flag is still
  false, a server and a running process, and raise the termination signal twice in a row.
  The second signal only adds its own \<^verbatim>\<open>emit\<close> to the trace: the world after both is
  the world after the first with that one event more. Two timers were set, the
  one-second drain and the thirty-second watchdog. When the drain timer fires, the trace
  since the first signal is: the two emits around the two \<^verbatim>\<open>setTimeout\<close> calls, one
  \<^verbatim>\<open>close\<close> of the listener, one shutdown notice (on the debug channel, the logger and the
  health log) and one \<^verbatim>\<open>hydra.shutdown()\<close>. So there is exactly one grace wait, one
  close, one notice and one deregistration, and the one promise of \<^verbatim>\<open>_shutdown\<close> is
  settled by the outcome of the deregistration.
\<close>

theorem second_signal_is_noop:
  assumes "cleanupHandlers w = [False]" and "server w = Some s" and "\<not> exited w"
    and "after = run ev [Signal, Signal, Fire (length (timers w))] w"
    and "new = drop (length (trace w)) (trace after)"
  shows "run ev [Signal, Signal] w =
           (run ev [Signal] w)\<lparr>trace := trace (run ev [Signal] w) @ [ProcessEmit ''cleanup'']\<rparr> \<and>
         timers (run ev [Signal, Signal] w) =
           timers w @ [(1000, DrainTask (length (promises w))), (30000, ExitTask)] \<and>
         trace after =
           trace w @
             [ProcessEmit ''cleanup'', SetTimeout 1000, SetTimeout 30000, ProcessEmit ''cleanup'',
              ServerClose s,
              Debug ''error Service is shutting down.'',
              AppLogger ''error'' ''error'' ''Service is shutting down.'',
              HydraSendToHealthLog ''fatal'' ''Service is shutting down.'' True,
              HydraShutdown] \<and>
         occurrences (SetTimeout 1000) new = 1 \<and>
         occurrences (ServerClose s) new = 1 \<and>
         occurrences (AppLogger ''error'' ''error'' ''Service is shutting down.'') new = 1 \<and>
         occurrences HydraShutdown new = 1 \<and>
         promises after = promises w @ [outcome_state (hydra_shutdown ev)]"
proof -
  let ?w1 = "w\<lparr>cleanupHandlers := [True],
             promises := promises w @ [PPending],
             timers := timers w @ [(1000, DrainTask (length (promises w))), (30000, ExitTask)],
             trace := trace w @ [ProcessEmit ''cleanup'', SetTimeout 1000, SetTimeout 30000]\<rparr>"
  have 1: "run ev [Signal] w = ?w1"
    using assms(1-3) by (simp add: run_def step_def emit_cleanup_armed)
  have 2: "run ev [Signal, Signal] w = ?w1\<lparr>trace := trace ?w1 @ [ProcessEmit ''cleanup'']\<rparr>"
    using assms(1-3) by (simp add: run_def step_def emit_cleanup_armed emit_cleanup_done)
  have 3: "after = fire ev (length (timers w)) (?w1\<lparr>trace := trace ?w1 @ [ProcessEmit ''cleanup'']\<rparr>)"
    using assms(1-4) by (simp add: run_def step_def emit_cleanup_armed emit_cleanup_done)
  have 4: "trace after =
           trace w @
             [ProcessEmit ''cleanup'', SetTimeout 1000, SetTimeout 30000, ProcessEmit ''cleanup'',
              ServerClose s,
              Debug ''error Service is shutting down.'',
              AppLogger ''error'' ''error'' ''Service is shutting down.'',
              HydraSendToHealthLog ''fatal'' ''Service is shutting down.'' True,
              HydraShutdown]"
    unfolding 3 using assms(1-3)
    by (simp add: fire_def run_task_def drain_def log_def settle_promise_def nth_append)
  have 5: "promises after = promises w @ [outcome_state (hydra_shutdown ev)]"
    unfolding 3 using assms(1-3)
    by (simp add: fire_def run_task_def drain_def log_def settle_promise_def nth_append)
  have 6: "new =
             [ProcessEmit ''cleanup'', SetTimeout 1000, SetTimeout 30000, ProcessEmit ''cleanup'',
              ServerClose s,
              Debug ''error Service is shutting down.'',
              AppLogger ''error'' ''error'' ''Service is shutting down.'',
              HydraSendToHealthLog ''fatal'' ''Service is shutting down.'' True,
              HydraShutdown]"
    using assms(5) 4 by simp
  have 7: "occurrences (SetTimeout 1000) new = 1 \<and>
         occurrences (ServerClose s) new = 1 \<and>
         occurrences (AppLogger ''error'' ''error'' ''Service is shutting down.'') new = 1 \<and>
         occurrences HydraShutdown new = 1"
    unfolding 6 by (simp add: occurrences_def)
  show ?thesis
    using 1 2 4 5 7 by simp
qed

theorem second_signal_is_noop_witness:
  "trace (run sample_env [Signal, Signal, Fire 0] started_world) =
     trace started_world @
       [ProcessEmit ''cleanup'', SetTimeout 1000, SetTimeout 30000, ProcessEmit ''cleanup'',
        ServerClose 0,
        Debug ''error Service is shutting down.'',
        AppLogger ''error'' ''error'' ''Service is shutting down.'',
        HydraSendToHealthLog ''fatal'' ''Service is shutting down.'' True,
        HydraShutdown] \<and>
   promises (run sample_env [Signal, Signal, Fire 0] started_world) = [PFulfilled VUndefined]"
proof -
  have a: "cleanupHandlers started_world = [False]" and b: "server started_world = Some 0"
    and c: "\<not> exited started_world" and d: "timers started_world = []"
    and e: "promises started_world = []"
    by (simp_all add: started_world_is)
  have f: "run sample_env [Signal, Signal, Fire 0] started_world
            = run sample_env [Signal, Signal, Fire (length (timers started_world))] started_world"
    by (simp add: d)
  have g: "outcome_state (hydra_shutdown sample_env) = PFulfilled VUndefined"
    by (simp add: outcome_state_def sample_env_def)
  show ?thesis
    using second_signal_is_noop [OF a b c f refl] e g by simp
qed

subsection \<open>C8: getRuntimeConfig\<close>

lemma caller_assigns_frame:
  "length (heap (caller_assigns (VRef n) k x w)) = length (heap w) \<and>
   (\<forall>a. a \<noteq> n \<longrightarrow> obj_at (heap (caller_assigns (VRef n) k x w)) a = obj_at (heap w) a) \<and>
   config (caller_assigns (VRef n) k x w) = config w"
  by (simp add: caller_assigns_def obj_at_def)

lemma caller_assigns_all_frame:
  "length (heap (caller_assigns_all (VRef n) kxs w)) = length (heap w) \<and>
   (\<forall>a. a \<noteq> n \<longrightarrow> obj_at (heap (caller_assigns_all (VRef n) kxs w)) a = obj_at (heap w) a) \<and>
   config (caller_assigns_all (VRef n) kxs w) = config w"
proof (induction kxs arbitrary: w)
  case Nil
  then show ?case by (simp add: caller_assigns_all_def)
next
  case (Cons kx kxs)
  obtain k x where kx: "kx = (k, x)" by (cases kx)
  have step: "caller_assigns_all (VRef n) (kx # kxs) w =
          caller_assigns_all (VRef n) kxs (caller_assigns (VRef n) k x w)"
    by (simp add: caller_assigns_all_def kx)
  show ?case
    unfolding step
    using Cons.IH [of "caller_assigns (VRef n) k x w"] caller_assigns_frame [of n k x w]
    by simp
qed

lemma map_of_fold_update_distinct:
  "distinct (map fst src) \<Longrightarrow>
   map_of (fold (\<lambda>(k, v) t. AList.update k v t) src target) = map_of target ++ map_of src"
proof (induction src arbitrary: target)
  case Nil
  then show ?case by simp
next
  case (Cons kv src)
  obtain k v where kv: "kv = (k, v)" by (cases kv)
  from Cons.prems have d: "distinct (map fst src)" and n: "k \<notin> fst ` set src"
    by (simp_all add: kv)
  have "map_of (fold (\<lambda>(k, v) t. AList.update k v t) (kv # src) target)
          = map_of (AList.update k v target) ++ map_of src"
    using Cons.IH [OF d, of "AList.update k v target"] by (simp add: kv)
  also have "\<dots> = (map_of target)(k \<mapsto> v) ++ map_of src"
    by (simp add: update_conv')
  also have "\<dots> = map_of target ++ map_of (kv # src)"
    using n by (simp add: kv map_add_upd_left dom_map_of_conv_image_fst)
  finally show ?case .
qed

lemma lookup_assign_props_distinct:
  "distinct (map fst ob) \<Longrightarrow> lookup (assign_props [] ob) k = lookup ob k"
  by (simp add: lookup_def assign_props_def map_of_fold_update_distinct)




subsection \<open>The promise chain of start\<close>

lemma ready_transitions_append [simp]:
  "ready_transitions (xs @ ys) = ready_transitions xs @ ready_transitions ys"
  by (simp add: ready_transitions_def)

lemma ready_transitions_simps [simp]:
  "ready_transitions [] = []"
  "ready_transitions (e # es) = (case e of ReadySettled s \<Rightarrow> [s] | _ \<Rightarrow> []) @ ready_transitions es"
  by (simp_all add: ready_transitions_def)

lemma same_ready_refl [simp]: "same_ready w w"
  by (simp add: same_ready_def)

lemma same_ready_trans: "same_ready w w1 \<Longrightarrow> same_ready w1 w2 \<Longrightarrow> same_ready w w2"
  by (simp add: same_ready_def)

lemma call_plugins_snd_Cons:
  "snd (call_plugins f mk (p # ps) w) =
     (case f p of
        Throws e \<Rightarrow> add_events [mk (plugin_id p)] w
      | Returns oc \<Rightarrow> snd (call_plugins f mk ps (add_events [mk (plugin_id p)] w)))"
  by (simp add: Let_def split: presult.splits sum.splits prod.splits)

lemma same_ready_call_plugins:
  assumes "\<And>i. ready_transitions [mk i] = []"
  shows "same_ready w (snd (call_plugins f mk ps w))"
proof (induction ps arbitrary: w)
  case Nil
  then show ?case by simp
next
  case (Cons p ps)
  let ?w1 = "add_events [mk (plugin_id p)] w"
  have a: "same_ready w ?w1" by (simp add: same_ready_def assms del: ready_transitions_simps)
  show ?case
  proof (cases "f p")
    case (Throws e)
    then show ?thesis using a by (simp add: call_plugins_snd_Cons del: call_plugins.simps)
  next
    case (Returns oc)
    have "same_ready ?w1 (snd (call_plugins f mk ps ?w1))" by (rule Cons.IH)
    then have "same_ready w (snd (call_plugins f mk ps ?w1))" using a same_ready_trans by blast
    then show ?thesis using Returns by (simp add: call_plugins_snd_Cons del: call_plugins.simps)
  qed
qed

lemma same_ready_await: "snd (await_plugins r) = snd r"
  by (cases r; cases "fst r") (auto simp: await_plugins_def)

lemma same_ready_phase_init: "same_ready w (snd (phase_init ev w))"
  by (simp add: phase_init_def same_ready_def)

lemma same_ready_phase_setConfig: "same_ready w (snd (phase_setConfig cfg w))"
proof -
  have "same_ready (w\<lparr>config := cfg\<rparr>)
          (snd (call_plugins setConfig PluginSetConfig (registeredPlugins w) (w\<lparr>config := cfg\<rparr>)))"
    by (rule same_ready_call_plugins) simp
  then show ?thesis by (simp add: phase_setConfig_def same_ready_await same_ready_def)
qed

lemma same_ready_phase_register: "same_ready w (snd (phase_register ev w))"
  by (simp add: phase_register_def same_ready_def)

lemma call_val_fields [simp]:
  "ready (snd (call_val ev f w)) = ready w"
  "ready_transitions (trace (snd (call_val ev f w))) = ready_transitions (trace w)"
  "cleanupHandlers (snd (call_val ev f w)) = cleanupHandlers w"
  "timers (snd (call_val ev f w)) = timers w"
  "promises (snd (call_val ev f w)) = promises w"
  "exited (snd (call_val ev f w)) = exited w"
  "server (snd (call_val ev f w)) = server w"
  "servers (snd (call_val ev f w)) = servers w"
  "heap (snd (call_val ev f w)) = heap w"
  "config (snd (call_val ev f w)) = config w"
  by (cases f; simp add: call_val_def add_events_def)+

lemma create_server_fields [simp]:
  "ready (snd (create_server ap w)) = ready w"
  "ready_transitions (trace (snd (create_server ap w))) = ready_transitions (trace w)"
  "cleanupHandlers (snd (create_server ap w)) = cleanupHandlers w"
  "timers (snd (create_server ap w)) = timers w"
  "promises (snd (create_server ap w)) = promises w"
  "exited (snd (create_server ap w)) = exited w"
  by (simp_all add: create_server_def add_events_def Let_def split: sum.splits)

lemma create_server_server:
  "fst (create_server ap w) = None \<Longrightarrow> server (snd (create_server ap w)) = Some (servers w)"
  by (simp add: create_server_def add_events_def Let_def split: sum.splits)

lemma security_fields [simp]:
  "ready (security_middleware w) = ready w"
  "ready_transitions (trace (security_middleware w)) = ready_transitions (trace w)"
  "cleanupHandlers (security_middleware w) = cleanupHandlers w @ [False]"
  "timers (security_middleware w) = timers w"
  "promises (security_middleware w) = promises w"
  "exited (security_middleware w) = exited w"
  "server (security_middleware w) = server w"
  "servers (security_middleware w) = servers w"
  by (simp_all add: security_middleware_def add_events_def)

lemma cors_fields [simp]:
  "ready (cors_middleware c w) = ready w"
  "ready_transitions (trace (cors_middleware c w)) = ready_transitions (trace w)"
  "cleanupHandlers (cors_middleware c w) = cleanupHandlers w"
  "timers (cors_middleware c w) = timers w"
  "promises (cors_middleware c w) = promises w"
  "exited (cors_middleware c w) = exited w"
  "server (cors_middleware c w) = server w"
  "servers (cors_middleware c w) = servers w"
  by (simp_all add: cors_middleware_def add_events_def Let_def)

lemma serve_fields [simp]:
  "ready (snd (serve ev w)) = ready w"
  "ready_transitions (trace (snd (serve ev w))) = ready_transitions (trace w)"
  "cleanupHandlers (snd (serve ev w)) = cleanupHandlers w"
  "timers (snd (serve ev w)) = timers w"
  "promises (snd (serve ev w)) = promises w"
  "exited (snd (serve ev w)) = exited w"
  by (simp_all add: serve_def case_prod_unfold split: sum.splits option.splits)

lemma serve_server:
  "fst (serve ev w) = None \<Longrightarrow> server (snd (serve ev w)) = Some (servers w)"
  by (auto simp: serve_def case_prod_unfold create_server_server split: sum.splits option.splits)

lemma initService_fields [simp]:
  "ready (snd (initService ev w)) = ready w"
  "ready_transitions (trace (snd (initService ev w))) = ready_transitions (trace w)"
  "cleanupHandlers (snd (initService ev w)) = cleanupHandlers w @ [False]"
  "timers (snd (initService ev w)) = timers w"
  "promises (snd (initService ev w)) = promises w"
  "exited (snd (initService ev w)) = exited w"
  by (simp_all add: initService_def Let_def split: sum.splits)

lemma initService_server:
  "fst (initService ev w) = None \<Longrightarrow> server (snd (initService ev w)) = Some (servers w)"
  by (auto simp: initService_def Let_def serve_server split: sum.splits)

lemma same_ready_initService: "same_ready w (snd (initService ev w))"
  by (simp add: same_ready_def)


lemma same_ready_then:
  assumes "same_ready w (snd m)" and "\<And>x w1. same_ready w1 (snd (f x w1))"
  shows "same_ready w (snd (then_chain m f))"
proof (cases m)
  case (Pair c w1)
  then show ?thesis
    using assms(1) assms(2) same_ready_trans
    by (cases c) (auto simp: then_chain_def)
qed

lemma same_ready_phase_service: "same_ready w (snd (phase_service ev w))"
proof (cases "initService ev w")
  case (Pair r w1)
  have a: "same_ready w w1" using same_ready_initService [of w ev] Pair by simp
  show ?thesis
  proof (cases r)
    case None
    have "same_ready w1 (snd (call_plugins onServiceReady PluginOnServiceReady (registeredPlugins w1) w1))"
      by (rule same_ready_call_plugins) simp
    then show ?thesis
      using a Pair None same_ready_trans by (simp add: phase_service_def same_ready_await)
  next
    case (Some e)
    then show ?thesis using a Pair by (simp add: phase_service_def)
  qed
qed

lemma same_ready_start_chain: "same_ready w (snd (start_chain ev w))"
  unfolding start_chain_def
  by (intro same_ready_then same_ready_phase_init same_ready_phase_setConfig
        same_ready_phase_register same_ready_phase_service) simp

lemma cleanup_handler_ready [simp]:
  "ready (cleanup_handler i w) = ready w"
  "ready_transitions (trace (cleanup_handler i w)) = ready_transitions (trace w)"
  by (simp_all add: cleanup_handler_def shutdown'_def Let_def)

lemma same_ready_fold_cleanup: "same_ready w (fold cleanup_handler is w)"
proof (induction "is" arbitrary: w)
  case Nil
  then show ?case by simp
next
  case (Cons i "is")
  have "same_ready w (cleanup_handler i w)" by (simp add: same_ready_def)
  then show ?case using Cons.IH [of "cleanup_handler i w"] same_ready_trans by auto
qed

lemma same_ready_emit_cleanup: "same_ready w (emit_cleanup w)"
proof -
  have "same_ready w (add_events [ProcessEmit ''cleanup''] w)" by (simp add: same_ready_def)
  then show ?thesis
    unfolding emit_cleanup_def using same_ready_fold_cleanup same_ready_trans by blast
qed

lemma then_chain_Ok:
  "then_chain m f = (Ok y, w') \<longleftrightarrow> (\<exists>x w1. m = (Ok x, w1) \<and> f x w1 = (Ok y, w'))"
  by (cases m; cases "fst m") (auto simp: then_chain_def)

lemma start_chain_Ok:
  assumes "start_chain ev w = (Ok v, w')"
  shows "hydra_registerService ev = Fulfils v"
proof -
  from assms obtain cfg w1 u w2 info w3 u' w4 where
    "phase_register ev w2 = (Ok info, w3)" and "(Ok info, w4) = (Ok v, w')"
    unfolding start_chain_def then_chain_Ok by blast
  then show ?thesis
    by (cases "hydra_registerService ev") (simp_all add: phase_register_def of_outcome_def)
qed

lemma start_settles_once:
  assumes "ready w = PPending" and "start ev w = (p, w')"
  shows "(case p of
            PFulfilled v \<Rightarrow>
              hydra_registerService ev = Fulfils v \<and> ready w' = PFulfilled VUndefined \<and>
              ready_transitions (trace w') = ready_transitions (trace w) @ [PFulfilled VUndefined]
          | PRejected e \<Rightarrow>
              fst (start_chain ev w) = Fail e \<and> ready w' = PRejected e \<and>
              ready_transitions (trace w') = ready_transitions (trace w) @ [PRejected e]
          | PPending \<Rightarrow>
              ready w' = PPending \<and> ready_transitions (trace w') = ready_transitions (trace w))"
proof (cases "start_chain ev w")
  case (Pair c w1)
  have "same_ready w w1" using same_ready_start_chain [of w ev] Pair by simp
  then have r: "ready w1 = PPending" and t: "ready_transitions (trace w1) = ready_transitions (trace w)"
    using assms(1) by (simp_all add: same_ready_def)
  show ?thesis
  proof (cases c)
    case (Ok v)
    have "hydra_registerService ev = Fulfils v" using start_chain_Ok Pair Ok by blast
    then show ?thesis
      using assms(2) Pair Ok r t by (auto simp: start_def settle_ready_def)
  next
    case (Fail e)
    let ?w2 = "settle_ready (PRejected e) w1"
    have "same_ready ?w2 (emit_cleanup ?w2)" by (rule same_ready_emit_cleanup)
    then show ?thesis
      using assms(2) Pair Fail r t by (auto simp: start_def settle_ready_def same_ready_def)
  next
    case Hang
    then show ?thesis
      using assms(2) Pair r t by (auto simp: start_def)
  qed
qed


lemma truthy_prop_ref:
  "get_prop h v k = Inr x \<Longrightarrow> truthy x \<Longrightarrow> parse_index k = None \<Longrightarrow>
     \<exists>a. v = VRef a \<and> a < length h"
  by (cases v) (auto simp: obj_at_def lookup_def split: if_splits)

lemma set_prop_ref:
  "a < length h \<Longrightarrow> \<exists>h'. set_prop h (VRef a) k x = Inr h' \<and> length h' = length h"
  by simp

lemma get_prop_ref: "\<exists>x. get_prop h (VRef a) k = Inr x"
  by simp

lemma init'_starts:
  assumes rd: "read_path (heap w) cfg [''hydra'', ''redis''] = Inr rd" "truthy rd"
    and ms: "spec_missing_fields (heap w) cfg = []"
    and cb: "get_prop (heap w) cfg ''registerRoutesCallback'' = Inr rrc" "truthy rrc"
  shows "\<exists>ws. init' ev cfg w = start ev ws \<and> ready ws = ready w \<and>
           trace ws = trace w @ [ValidateConfig, HydraOn ''log''] \<and>
           config ws = cfg \<and> testMode ws = testMode w \<and>
           registeredPlugins ws = registeredPlugins w \<and>
           cleanupHandlers ws = cleanupHandlers w \<and> timers ws = timers w \<and>
           promises ws = promises w \<and> server ws = server w \<and> servers ws = servers w \<and>
           exited ws = exited w"
proof -
  let ?h = "heap w"
  obtain hy where hy: "get_prop ?h cfg ''hydra'' = Inr hy" and r: "get_prop ?h hy ''redis'' = Inr rd"
    using read_redis [OF rd(1)] by blast
  obtain a where a: "hy = VRef a" "a < length ?h" using redis_ref [OF r rd(2)] by blast
  then have thy: "truthy hy" by simp
  obtain c where c: "cfg = VRef c" "c < length ?h"
    using truthy_prop_ref [OF hy thy] by (auto simp: parse_index_def digit_val_def)
  obtain h1 where h1: "hydra_defaults ?h hy = Inr h1" "length h1 = length ?h"
    using hydra_defaults_ref [OF a(2)] a(1) by blast
  have hy1: "get_prop h1 cfg ''hydra'' = Inr hy"
    using get_prop_hydra_defaults_other [OF h1(1), of "''hydra''" cfg] hy by simp
  have v: "validateConfig h1 cfg = Inr []"
    using validateConfig_spec [OF hy1 thy] spec_missing_fields_hydra_defaults [OF h1(1)] ms by simp
  have cb1: "get_prop h1 cfg ''registerRoutesCallback'' = Inr rrc"
    using get_prop_hydra_defaults_other [OF h1(1), of "''registerRoutesCallback''" cfg] cb(1) by simp
  let ?w1 = "add_events [ValidateConfig] (w\<lparr>heap := h1\<rparr>)"
  have i: "init' ev cfg w = accept_config ev cfg ?w1"
    using hy thy r rd(2) h1(1) v cb1 cb(2) a(1) by (simp add: init'_def Let_def)
  obtain ver where ver: "get_prop h1 cfg ''version'' = Inr ver"
    using get_prop_ref c(1) by blast
  obtain h2 where h2: "set_prop h1 hy ''serviceVersion'' ver = Inr h2" "length h2 = length h1"
    using set_prop_ref [of a h1] a h1(2) by auto
  obtain h3 where h3: "default_prop h2 cfg ''environment'' (VStr ''development'') = Inr h3"
    using default_prop_ref [of c h2] c h2(2) h1(2) by auto
  obtain x y where x: "get_prop h3 cfg ''registerRoutesCallback'' = Inr x"
    and y: "get_prop h3 cfg ''registerMiddlewareCallback'' = Inr y"
    using get_prop_ref c(1) by blast
  let ?ws = "add_events [HydraOn ''log'']
               (?w1\<lparr>heap := h2, config := cfg\<rparr>\<lparr>heap := h3, registerRoutesCallback := x,
                  registerMiddlewareCallback := y\<rparr>)"
  have "accept_config ev cfg ?w1 = start ev ?ws"
    using hy1 ver h2(1) h3 x y by (simp add: accept_config_def bindE_def Let_def)
  then show ?thesis using i by (intro exI [of _ ?ws]) simp
qed

lemma call_plugins_events: "\<exists>es. snd (call_plugins f mk ps w) = add_events es w"
proof (induction ps arbitrary: w)
  case Nil
  have "snd (call_plugins f mk [] w) = add_events [] w" by (simp add: add_events_def)
  then show ?case by blast
next
  case (Cons p ps)
  let ?w1 = "add_events [mk (plugin_id p)] w"
  show ?case
  proof (cases "f p")
    case (Throws e)
    then show ?thesis by (auto simp: call_plugins_snd_Cons simp del: call_plugins.simps)
  next
    case (Returns oc)
    obtain es where "snd (call_plugins f mk ps ?w1) = add_events es ?w1" using Cons.IH by blast
    then have "snd (call_plugins f mk (p # ps) w) = add_events ([mk (plugin_id p)] @ es) w"
      using Returns by (simp add: call_plugins_snd_Cons add_events_def del: call_plugins.simps)
    then show ?thesis by blast
  qed
qed

lemma same_process_refl [simp]: "same_process w w"
  by (simp add: same_process_def)

lemma same_process_trans: "same_process w w1 \<Longrightarrow> same_process w1 w2 \<Longrightarrow> same_process w w2"
  by (simp add: same_process_def)

lemma same_process_add_events [simp]: "same_process w (add_events es w)"
  by (simp add: same_process_def)

lemma same_process_call_plugins: "same_process w (snd (call_plugins f mk ps w))"
  using call_plugins_events [of f mk ps w] by auto

lemma same_process_phase_init: "same_process w (snd (phase_init ev w))"
  by (simp add: phase_init_def)

lemma same_process_phase_setConfig: "same_process w (snd (phase_setConfig cfg w))"
proof -
  have "same_process (w\<lparr>config := cfg\<rparr>)
          (snd (call_plugins setConfig PluginSetConfig (registeredPlugins w) (w\<lparr>config := cfg\<rparr>)))"
    by (rule same_process_call_plugins)
  then show ?thesis by (simp add: phase_setConfig_def same_ready_await same_process_def)
qed

lemma same_process_phase_register: "same_process w (snd (phase_register ev w))"
  by (simp add: phase_register_def)

lemma same_process_then:
  assumes "same_process w (snd m)" and "\<And>x w1. same_process w1 (snd (f x w1))"
  shows "same_process w (snd (then_chain m f))"
proof (cases m)
  case (Pair c w1)
  then show ?thesis
    using assms(1) assms(2) same_process_trans
    by (cases c) (auto simp: then_chain_def)
qed

lemma same_process_registration: "same_process w (snd (registration ev w))"
  unfolding registration_def
  by (intro same_process_then same_process_phase_init same_process_phase_setConfig
        same_process_phase_register)

lemma same_ready_registration: "same_ready w (snd (registration ev w))"
  unfolding registration_def
  by (intro same_ready_then same_ready_phase_init same_ready_phase_setConfig
        same_ready_phase_register)

lemma then_chain_assoc:
  "then_chain (then_chain m f) g = then_chain m (\<lambda>x w. then_chain (f x w) g)"
  by (cases m; cases "fst m") (auto simp: then_chain_def)

lemma start_chain_registration:
  "start_chain ev w =
     then_chain (registration ev w) (\<lambda>info w3.
       then_chain (phase_service ev w3) (\<lambda>u w4. (Ok info, w4)))"
  by (simp add: start_chain_def registration_def then_chain_assoc)

lemma start_chain_early_failure:
  "registration ev w = (Fail e, w1) \<Longrightarrow> start_chain ev w = (Fail e, w1)"
  by (simp add: start_chain_registration then_chain_def)

lemma start_chain_late_failure:
  assumes "registration ev w = (Ok info, w1)" and "initService ev w1 = (None, w2)"
    and "await_plugins (call_plugins onServiceReady PluginOnServiceReady (registeredPlugins w2) w2)
           = (Fail e, w3)"
  shows "start_chain ev w = (Fail e, w3)"
  using assms by (simp add: start_chain_registration then_chain_def phase_service_def)


lemma emit_cleanup_unarmed:
  assumes "cleanupHandlers w = []"
  shows "emit_cleanup w = add_events [ProcessEmit ''cleanup''] w"
  using assms by (simp add: emit_cleanup_def)

lemma emit_cleanup_trace: "\<exists>es. trace (emit_cleanup w) = trace w @ [ProcessEmit ''cleanup''] @ es"
proof -
  have f: "\<exists>es. trace (fold cleanup_handler is w0) = trace w0 @ es" for "is" w0
  proof (induction "is" arbitrary: w0)
    case Nil
    then show ?case by simp
  next
    case (Cons i "is")
    have "\<exists>es. trace (cleanup_handler i w0) = trace w0 @ es"
      by (simp add: cleanup_handler_def shutdown'_def Let_def)
    then obtain es where 1: "trace (cleanup_handler i w0) = trace w0 @ es" by blast
    obtain es' where "trace (fold cleanup_handler is (cleanup_handler i w0)) = trace (cleanup_handler i w0) @ es'"
      using Cons.IH by blast
    then have "trace (fold cleanup_handler (i # is) w0) = trace w0 @ (es @ es')"
      using 1 by simp
    then show ?case by blast
  qed
  obtain es where "trace (emit_cleanup w) = trace (add_events [ProcessEmit ''cleanup''] w) @ es"
    unfolding emit_cleanup_def using f by blast
  then have "trace (emit_cleanup w) = trace w @ [ProcessEmit ''cleanup''] @ es" by simp
  then show ?thesis by blast
qed

lemmas sample_defs =
  sample_env_def unregistered_env_def sample_world_def sample_heap_def new_world_def
  captured_world_def plugged_world_def failing_plugin_def merged_world_def

subsection \<open>C1: the future of init and the ready signal\<close>




subsection \<open>C4: a failing startup and the cleanup listener\<close>




subsection \<open>C5: registerRoutes\<close>

lemma walk_methods_lines:
  assumes "get_prop h routeInfo ''path'' = Inr (VStr leaf)"
  shows "walk_methods h base routeInfo ms routesList
           = Inr (routesList @ map (\<lambda>m. route_line m base leaf) ms)"
  using assms
  by (induction ms arbitrary: routesList) (simp_all add: bindE_def route_line_def)

lemma walk_stack_lines:
  assumes "those (map (view_layer h) layers) = Some st"
  shows "walk_stack h base layers routesList = Inr (routesList @ concat (map (entry_lines base) st))"
  using assms
proof (induction layers arbitrary: routesList st)
  case Nil
  then show ?case by simp
next
  case (Cons layer layers)
  from Cons.prems obtain entry st' where
    e: "view_layer h layer = Some entry" and s: "those (map (view_layer h) layers) = Some st'"
    and st: "st = entry # st'"
    by (auto split: option.splits)
  from e obtain routeInfo where r: "get_prop h layer ''route'' = Inr routeInfo"
    by (auto simp: view_layer_def split: sum.splits)
  show ?case
  proof (cases "truthy routeInfo")
    case False
    then have "entry = None" using e r by (simp add: view_layer_def)
    then show ?thesis
      using r False Cons.IH [OF s] st by (simp add: bindE_def entry_lines_def)
  next
    case True
    then obtain ma leaf where m: "get_prop h routeInfo ''methods'' = Inr (VRef ma)"
      and p: "get_prop h routeInfo ''path'' = Inr (VStr leaf)"
      and en: "entry = Some (map fst (obj_at h ma), leaf)"
      using e r by (auto simp: view_layer_def split: sum.splits val.splits)
    have "walk_stack h base (layer # layers) routesList
            = walk_stack h base layers (routesList @ map (\<lambda>m. route_line m base leaf) (map fst (obj_at h ma)))"
      using r True m walk_methods_lines [OF p] by (simp add: bindE_def)
    then show ?thesis
      using Cons.IH [OF s] st en by (simp add: entry_lines_def)
  qed
qed

lemma walk_router_lines:
  assumes "view_router h router = Some st"
  shows "walk_router h base router routesList = Inr (routesList @ concat (map (entry_lines base) st))"
proof -
  from assms obtain layers where l: "get_prop h router ''stack'' = Inr (VArr layers)"
    and s: "those (map (view_layer h) layers) = Some st"
    by (auto simp: view_router_def split: sum.splits val.splits)
  show ?thesis using l walk_stack_lines [OF s] by (simp add: walk_router_def bindE_def)
qed

lemma walk_routes_lines:
  assumes "those (map (view_mount (heap w) routes) ks) = Some table"
  shows "walk_routes routes ks routesList w =
           (Inr (routesList @ spec_route_list table),
            add_events (map (\<lambda>(base, router, st). AppUse (Mount base router)) table) w)"
  using assms
proof (induction ks arbitrary: routesList w table)
  case Nil
  then show ?case by (simp add: spec_route_list_def add_events_def)
next
  case (Cons k ks)
  from Cons.prems obtain x table' where
    x: "view_mount (heap w) routes k = Some x"
    and t: "those (map (view_mount (heap w) routes) ks) = Some table'"
    and tx: "table = x # table'"
    by (auto split: option.splits)
  from x obtain router st where
    g: "get_prop (heap w) routes k = Inr router" and v: "view_router (heap w) router = Some st"
    and xe: "x = (k, router, st)"
    by (auto simp: view_mount_def split: sum.splits)
  have tb: "table = (k, router, st) # table'" using tx xe by simp
  let ?w1 = "add_events [AppUse (Mount k router)] w"
  have h: "heap ?w1 = heap w" by simp
  have "walk_routes routes (k # ks) routesList w
          = walk_routes routes ks (routesList @ concat (map (entry_lines k) st)) ?w1"
    using g walk_router_lines [OF v] by simp
  also have "\<dots> = (Inr ((routesList @ concat (map (entry_lines k) st)) @ spec_route_list table'),
                     add_events (map (\<lambda>(base, router, st). AppUse (Mount base router)) table') ?w1)"
    using Cons.IH [of ?w1 table'] t h by simp
  finally show ?case
    by (simp add: tb spec_route_list_def add_events_def)
qed



lemma routes_view:
  "view_routes routes_heap (VRef 0) =
     Some [(''/v1'', VRef 1, [None, Some ([''get'', ''post''], ''/list'')])]"
  by (simp add: view_routes_def view_mount_def view_router_def view_layer_def routes_heap_def
      obj_at_def lookup_def)


end
